theory Spec2Isabelle
  imports Complex_Main "HOL-Library.Word" "HOL-Library.Sublist"
begin

unbundle bit_operations_syntax

section \<open>Go values shared by the three source files\<close>

text \<open>
  A byte slice is a list of 8-bit words, a Go \<open>string\<close> is a \<open>string\<close>, a Go \<open>int\<close>
  or \<open>int64\<close> is an \<open>int\<close>.  Payload lengths stay far below \<open>2^63\<close>, so no product
  of the chunking arithmetic wraps; where a length bound is needed (parsing the page
  count back with \<open>strconv.Atoi\<close>) it is a hypothesis of the theorem.

  \<open>nats.Header\<close> is \<open>map[string][]string\<close>: a function from the key to the list of its
  values, the empty list for a key that is absent.
\<close>

type_synonym byte = "8 word"

type_synonym Header = "string \<Rightarrow> string list"

text \<open>
  Errors are values.  \<open>errors.New\<close>, \<open>errors.Errorf\<close>, \<open>errors.Wrap\<close> and
  \<open>errors.Wrapf\<close> keep their message (and format arguments); \<open>External\<close> is an error
  made by a library outside the repository (the NATS client, \<open>net/url\<close>, the gob
  encoder, a caller's callback).
\<close>

datatype fmtarg = ArgString string | ArgInt int | ArgType string | ArgHeader Header

datatype error =
    errors_New string
  | errors_Errorf string "fmtarg list"
  | errors_Wrap error string
  | errors_Wrapf error string "fmtarg list"
  | context_DeadlineExceeded
  | strconv_ErrSyntax string
  | strconv_ErrRange string
  | External string


text \<open>
  A function either returns or panics with a run-time error.  Indexing a string
  \<open>s[i]\<close> panics unless \<open>0 \<le> i < len(s)\<close>.
\<close>

datatype runtime_panic = IndexOutOfRange int nat

datatype 'a outcome = Returns 'a | Panics runtime_panic

definition index :: "'a list \<Rightarrow> int \<Rightarrow> runtime_panic + 'a" where
  "index s i = (if 0 \<le> i \<and> i < int (length s) then Inr (s ! nat i)
                else Inl (IndexOutOfRange i (length s)))"

section \<open>config.go: the configuration of the backend\<close>

text \<open>
  The fields of \<open>url.URL\<close> that the backend reads.  \<open>url.Parse\<close> belongs to the Go
  standard library: \<open>ParseConfig\<close> takes it as a parameter.
\<close>

record URL =
  Scheme :: string
  Host :: string
  Path :: string

record Config =
  Server :: "URL option"
  Credential :: string
  Connections :: nat
  Repo :: string

definition NewConfig :: Config where
  "NewConfig = \<lparr>Server = None, Credential = [], Connections = 5, Repo = []\<rparr>"

definition HasPrefix :: "string \<Rightarrow> string \<Rightarrow> bool" where
  "HasPrefix s pre = (take (length pre) s = pre)"

text \<open>\<open>strings.Replace(repo, "/", ".", -1)\<close>: every slash becomes a dot.\<close>

definition Replace_slash_dot :: "string \<Rightarrow> string" where
  "Replace_slash_dot s = map (\<lambda>c. if c = CHR ''/'' then CHR ''.'' else c) s"

definition ParseConfig :: "(string \<Rightarrow> error + URL) \<Rightarrow> string \<Rightarrow> (error + Config) outcome" where
  "ParseConfig url_Parse s =
     (if \<not> HasPrefix s ''nats:'' then
        Returns (Inl (errors_New ''invalid REST backend specification''))
      else
        case url_Parse s of
          Inl err \<Rightarrow> Returns (Inl (errors_Wrap err ''url.Parse''))
        | Inr u \<Rightarrow>
            let cfg = NewConfig\<lparr>Server := Some u\<rparr> in
            (case index (Path u) 0 of
               Inl p \<Rightarrow> Panics p
             | Inr c0 \<Rightarrow>
                 let repo = (if c0 = CHR ''/'' then drop 1 (Path u) else []) in
                 (case index repo (int (length repo) - 1) of
                    Inl p \<Rightarrow> Panics p
                  | Inr cl \<Rightarrow>
                      let repo = (if cl = CHR ''/'' then take (length repo - 1) repo else repo);
                          repo = Replace_slash_dot repo
                      in Returns (Inr (cfg\<lparr>Repo := repo\<rparr>)))))"

section \<open>protocol.go: the chunk size\<close>

text \<open>
  Both send operations start with
  \<^verbatim>\<open>var maxchunksize int = int(0.95 * float32(conn.MaxPayload()))\<close>
  \<^verbatim>\<open>maxchunksize = 1024000 * 0.95\<close>
  The first value is overwritten before it is read; the second is an untyped constant
  expression, which Go evaluates exactly.
\<close>

definition proportional_chunksize :: "int \<Rightarrow> int" where
  "proportional_chunksize max_payload = \<lfloor>(95 / 100 :: rat) * of_int max_payload\<rfloor>"

definition pinned_chunksize :: rat where
  "pinned_chunksize = 1024000 * (95 / 100)"

definition maxchunksize_of :: "int \<Rightarrow> int" where
  "maxchunksize_of max_payload =
     (let maxchunksize = proportional_chunksize max_payload;
          maxchunksize = \<lfloor>pinned_chunksize\<rfloor>
      in maxchunksize)"

section \<open>Decimal numbers: \<open>fmt.Sprintf("%d", n)\<close> and \<open>strconv.Atoi\<close>\<close>

text \<open>
  The page count travels in a header as a decimal string.  Both conversions belong to
  the Go standard library; they are written out after their documentation.
  \<open>Atoi\<close> accepts an optional sign followed by at least one decimal digit, and
  reports a range error for a value outside the 64-bit \<open>int\<close>.
\<close>

definition digit_char :: "nat \<Rightarrow> char" where
  "digit_char d = char_of (48 + d)"

definition is_digit :: "char \<Rightarrow> bool" where
  "is_digit c = (48 \<le> (of_char c :: nat) \<and> (of_char c :: nat) \<le> 57)"

definition digit_val :: "char \<Rightarrow> nat" where
  "digit_val c = of_char c - 48"

function digits :: "nat \<Rightarrow> string" where
  "digits n = (if n < 10 then [digit_char n] else digits (n div 10) @ [digit_char (n mod 10)])"
  by pat_completeness auto
termination
  by (relation "measure id") auto

declare digits.simps [simp del]

definition Sprintf_d :: "int \<Rightarrow> string" where
  "Sprintf_d n = (if n < 0 then CHR ''-'' # digits (nat (- n)) else digits (nat n))"

definition Atoi :: "string \<Rightarrow> error + int" where
  "Atoi s =
     (let signed = (s \<noteq> [] \<and> (hd s = CHR ''-'' \<or> hd s = CHR ''+''));
          body = (if signed then tl s else s)
      in if body = [] \<or> \<not> list_all is_digit body then Inl (strconv_ErrSyntax s)
         else
           let n = int (foldl (\<lambda>a c. a * 10 + digit_val c) 0 body);
               v = (if hd s = CHR ''-'' then - n else n)
           in if v < - (2 ^ 63) \<or> 2 ^ 63 - 1 < v then Inl (strconv_ErrRange s) else Inr v)"

section \<open>protocol.go: commands, request and reply bodies\<close>

type_synonym NatsCommand = int

definition NatsOpenCmd :: NatsCommand where "NatsOpenCmd = 0"
definition NatsStatCmd :: NatsCommand where "NatsStatCmd = 1"
definition NatsMkdirCmd :: NatsCommand where "NatsMkdirCmd = 2"
definition NatsSaveCmd :: NatsCommand where "NatsSaveCmd = 3"
definition NatsListCmd :: NatsCommand where "NatsListCmd = 4"
definition NatsLoadCmd :: NatsCommand where "NatsLoadCmd = 5"
definition NatsRemoveCmd :: NatsCommand where "NatsRemoveCmd = 6"

record OpenOp =
  OpenOp_Bucket :: string

record OpenResult =
  OpenResult_Ok :: bool

record StatOp =
  StatOp_Bucket :: string
  StatOp_Filename :: string

record StatResult =
  StatResult_Ok :: bool
  StatResult_Size :: int
  StatResult_Name :: string

record MkdirOp =
  MkdirOp_Bucket :: string
  MkdirOp_Dir :: string

record MkdirResult =
  MkdirResult_Ok :: bool

record SaveOp =
  SaveOp_Bucket :: string
  SaveOp_Dir :: string
  SaveOp_Name :: string
  SaveOp_Filesize :: int
  SaveOp_PacketSize :: int
  SaveOp_Offset :: int
  SaveOp_Data :: "byte list"

record SaveResult =
  SaveResult_Ok :: bool

record ListOp =
  ListOp_Bucket :: string
  ListOp_BaseDir :: string
  ListOp_SubDir :: bool

record FileInfo =
  FileInfo_Name :: string
  FileInfo_Size :: int

record ListResult =
  ListResult_Ok :: bool
  ListResult_FI :: "FileInfo list"

record LoadOp =
  LoadOp_Bucket :: string
  LoadOp_Dir :: string
  LoadOp_Name :: string
  LoadOp_Length :: int
  LoadOp_Offset :: int

record LoadResult =
  LoadResult_Ok :: bool
  LoadResult_Data :: "byte list"

record RemoveOp =
  RemoveOp_Bucket :: string
  RemoveOp_Dir :: string
  RemoveOp_Name :: string

record RemoveResult =
  RemoveResult_Ok :: bool

text \<open>
  A value of type \<open>interface{}\<close> with its dynamic type: one of the request bodies, a
  pointer to one of the reply bodies (with the value it points to), or a value of any
  other type, of which only the name of the type is kept.
\<close>

datatype iface =
    is_OpenOp: V_OpenOp OpenOp
  | is_StatOp: V_StatOp StatOp
  | is_MkdirOp: V_MkdirOp MkdirOp
  | is_SaveOp: V_SaveOp SaveOp
  | is_ListOp: V_ListOp ListOp
  | is_LoadOp: V_LoadOp LoadOp
  | is_RemoveOp: V_RemoveOp RemoveOp
  | is_ptr_OpenResult: P_OpenResult OpenResult
  | is_ptr_StatResult: P_StatResult StatResult
  | is_ptr_MkdirResult: P_MkdirResult MkdirResult
  | is_ptr_SaveResult: P_SaveResult SaveResult
  | is_ptr_ListResult: P_ListResult ListResult
  | is_ptr_LoadResult: P_LoadResult LoadResult
  | is_ptr_RemoveResult: P_RemoveResult RemoveResult
  | is_Other: V_Other string

text \<open>The name that the verb \<open>%T\<close> prints.\<close>

fun type_name :: "iface \<Rightarrow> string" where
  "type_name (V_OpenOp _) = ''protocol.OpenOp''"
| "type_name (V_StatOp _) = ''protocol.StatOp''"
| "type_name (V_MkdirOp _) = ''protocol.MkdirOp''"
| "type_name (V_SaveOp _) = ''protocol.SaveOp''"
| "type_name (V_ListOp _) = ''protocol.ListOp''"
| "type_name (V_LoadOp _) = ''protocol.LoadOp''"
| "type_name (V_RemoveOp _) = ''protocol.RemoveOp''"
| "type_name (P_OpenResult _) = ''*protocol.OpenResult''"
| "type_name (P_StatResult _) = ''*protocol.StatResult''"
| "type_name (P_MkdirResult _) = ''*protocol.MkdirResult''"
| "type_name (P_SaveResult _) = ''*protocol.SaveResult''"
| "type_name (P_ListResult _) = ''*protocol.ListResult''"
| "type_name (P_LoadResult _) = ''*protocol.LoadResult''"
| "type_name (P_RemoveResult _) = ''*protocol.RemoveResult''"
| "type_name (V_Other n) = n"

section \<open>protocol.go: messages and headers\<close>

record Msg =
  Subject :: string
  Reply :: string
  Header :: Header
  Data :: "byte list"

definition msgHeaderID :: string where "msgHeaderID = ''X-RNS-MSGID''"
definition msgHeaderChunk :: string where "msgHeaderChunk = ''X-RNS-CHUNKS''"
definition msgHeaderChunkSubject :: string where "msgHeaderChunkSubject = ''X-RNS-CHUNK-SUBJECT''"
definition msgHeaderChunkSeq :: string where "msgHeaderChunkSeq = ''X-RNS-CHUNKS-SEQ''"
definition msgHeaderOperation :: string where "msgHeaderOperation = ''X-RNS-OP''"
definition msgHeaderNRI :: string where "msgHeaderNRI = ''Nats-Request-Info''"

definition make_Header :: Header where
  "make_Header = (\<lambda>_. [])"

definition Header_Get :: "Header \<Rightarrow> string \<Rightarrow> string" where
  "Header_Get h key = (case h key of [] \<Rightarrow> [] | v # _ \<Rightarrow> v)"

definition Header_Set :: "Header \<Rightarrow> string \<Rightarrow> string \<Rightarrow> Header" where
  "Header_Set h key v = h(key := [v])"

definition Header_Add :: "Header \<Rightarrow> string \<Rightarrow> string \<Rightarrow> Header" where
  "Header_Add h key v = h(key := h key @ [v])"

definition NewMsg :: "string \<Rightarrow> Msg" where
  "NewMsg subject = \<lparr>Subject = subject, Reply = [], Header = make_Header, Data = []\<rparr>"

definition copyHeader :: "Msg \<Rightarrow> Header" where
  "copyHeader msg =
     (let hdr = make_Header;
          hdr = Header_Add hdr msgHeaderID (Header_Get (Header msg) msgHeaderID);
          hdr = Header_Add hdr msgHeaderChunk (Header_Get (Header msg) msgHeaderChunk);
          hdr = Header_Add hdr msgHeaderOperation (Header_Get (Header msg) msgHeaderOperation)
      in hdr)"

record nriT =
  Acc :: string
  Rtt :: int

text \<open>A Go slice expression \<open>s[lo:hi]\<close> with \<open>0 \<le> lo \<le> hi \<le> len(s)\<close>.\<close>

definition slice :: "'a list \<Rightarrow> int \<Rightarrow> int \<Rightarrow> 'a list" where
  "slice s lo hi = take (nat hi - nat lo) (drop (nat lo) s)"

section \<open>The bus, the semaphore and the random source\<close>

text \<open>
  The NATS connection, the gob encoder, the JSON decoder, \<open>path/filepath\<close> and the
  process-wide source of \<open>math/rand\<close> lie outside the repository.  Each call into them
  is an action appended to the trace of the world; what the call returns is decided by the
  environment, as a function of the trace up to and including that action.  A call that
  brings something into being or takes something in is followed by a second action that
  says so: \<open>Subscribed\<close> after a \<open>SubscribeCalled\<close> that succeeded, \<open>ChunkReceived\<close>
  or \<open>ContextDone\<close> after an \<open>Awaited\<close> that ended.

  A context is the background context (never done) or a context that can be cancelled
  or can expire.
\<close>

datatype Context = Background | Cancellable nat

datatype action =
    TokenAcquired
  | TokenReleased
  | Requested Context Msg
  | Published Msg
  | Responded Msg Msg
  | SubscribeCalled string string
  | Subscribed string string
  | PendingLimitsSet int int
  | Unsubscribed string
  | ChanClosed
  | Awaited Context
  | ChunkReceived Msg
  | ContextDone Context

text \<open>
  What a \<open>select\<close> between the chunk channel and \<open>ctx.Done()\<close> meets: a chunk, the
  end of the context, or neither of them ever.
\<close>

datatype selected = ChunkArrives Msg | DoneFires | Neither

record Env =
  MaxPayload :: int
  request_result :: "action list \<Rightarrow> error + Msg"
  publish_result :: "action list \<Rightarrow> error option"
  respond_result :: "action list \<Rightarrow> error option"
  subscribe_result :: "action list \<Rightarrow> error option"
  select_result :: "action list \<Rightarrow> selected"
  Int63 :: "nat \<Rightarrow> int"
  NewInbox :: "action list \<Rightarrow> string"
  Encode :: "string \<Rightarrow> iface \<Rightarrow> error + byte list"
  Decode :: "string \<Rightarrow> byte list \<Rightarrow> iface \<Rightarrow> error + iface"
  json_Unmarshal_nriT :: "string \<Rightarrow> error + nriT"
  filepath_Base :: "string \<Rightarrow> string"

text \<open>
  The world: the trace of actions so far, the free tokens of the semaphore, and how
  many values have been drawn from the random source.
\<close>

record World =
  trace :: "action list"
  tokens :: nat
  draws :: nat

definition emit :: "action \<Rightarrow> World \<Rightarrow> World" where
  "emit a w = w\<lparr>trace := trace w @ [a]\<rparr>"

definition RequestMsgWithContext :: "Env \<Rightarrow> Context \<Rightarrow> Msg \<Rightarrow> World \<Rightarrow> (error + Msg) \<times> World" where
  "RequestMsgWithContext env ctx m w =
     (let w' = emit (Requested ctx m) w in (request_result env (trace w'), w'))"

definition PublishMsg :: "Env \<Rightarrow> Msg \<Rightarrow> World \<Rightarrow> error option \<times> World" where
  "PublishMsg env m w = (let w' = emit (Published m) w in (publish_result env (trace w'), w'))"

definition RespondMsg :: "Env \<Rightarrow> Msg \<Rightarrow> Msg \<Rightarrow> World \<Rightarrow> error option \<times> World" where
  "RespondMsg env to m w =
     (let w' = emit (Responded to m) w in (respond_result env (trace w'), w'))"

definition QueueSubscribeSyncWithChan :: "Env \<Rightarrow> string \<Rightarrow> string \<Rightarrow> World \<Rightarrow> error option \<times> World" where
  "QueueSubscribeSyncWithChan env subj queue w =
     (let w' = emit (SubscribeCalled subj queue) w in
      case subscribe_result env (trace w') of
        Some err \<Rightarrow> (Some err, w')
      | None \<Rightarrow> (None, emit (Subscribed subj queue) w'))"

text \<open>
  The \<open>select\<close> of the reassembly loop.  \<open>None\<close>: the goroutine waits forever (no chunk
  arrives and the context never ends; the background context never ends).
\<close>

definition select_chunk :: "Env \<Rightarrow> Context \<Rightarrow> World \<Rightarrow> (unit + Msg) option \<times> World" where
  "select_chunk env ctx w =
     (let w' = emit (Awaited ctx) w in
      case select_result env (trace w') of
        ChunkArrives chunk \<Rightarrow> (Some (Inr chunk), emit (ChunkReceived chunk) w')
      | DoneFires \<Rightarrow>
          (if ctx = Background then (None, w') else (Some (Inl ()), emit (ContextDone ctx) w'))
      | Neither \<Rightarrow> (None, w'))"

text \<open>
  Modelled from the spec: \<open>backend.Semaphore\<close> of the backup tool, which the repository
  imports and does not contain.  The semaphore owns a fixed number of tokens; a round-trip
  acquires one and releases it.  With no free token \<open>GetToken\<close> waits (\<open>None\<close>: in a run
  of a single caller it waits forever).
\<close>

definition GetToken :: "World \<Rightarrow> World option" where
  "GetToken w = (if tokens w = 0 then None else Some (emit TokenAcquired (w\<lparr>tokens := tokens w - 1\<rparr>)))"

definition ReleaseToken :: "World \<Rightarrow> World" where
  "ReleaseToken w = emit TokenReleased (w\<lparr>tokens := tokens w + 1\<rparr>)"

section \<open>protocol.go: message identifiers\<close>

definition letterBytes :: string where
  "letterBytes = ''abcdefghijklmnopqrstuvwxyzABCDEFGHIJKLMNOPQRSTUVWXYZ''"

definition letterIdxBits :: nat where "letterIdxBits = 6"
definition letterIdxMask :: int where "letterIdxMask = push_bit letterIdxBits 1 - 1"
definition letterIdxMax :: int where "letterIdxMax = 63 div int letterIdxBits"

text \<open>
  The loop of \<open>randStringBytesMaskImprSrcSB\<close>: \<open>i\<close> letters are still to be written,
  \<open>cache\<close> holds the random bits left and \<open>remain\<close> how many indices they still give,
  \<open>pos\<close> counts the values drawn from the source.  The loop ends only when the source
  has given enough indices below 52; \<open>None\<close> when it never does.
\<close>

partial_function (option) randString_loop ::
  "(nat \<Rightarrow> int) \<Rightarrow> int \<Rightarrow> int \<Rightarrow> int \<Rightarrow> nat \<Rightarrow> string \<Rightarrow> (string \<times> nat) option" where
  "randString_loop src i cache remain pos sb =
     (if 0 \<le> i then
        (let cache1 = (if remain = 0 then src pos else cache);
             remain1 = (if remain = 0 then letterIdxMax else remain);
             pos1 = (if remain = 0 then pos + 1 else pos);
             idx = cache1 AND letterIdxMask
         in if idx < int (length letterBytes)
            then randString_loop src (i - 1) (drop_bit letterIdxBits cache1) (remain1 - 1) pos1
                   (sb @ [letterBytes ! nat idx])
            else randString_loop src i (drop_bit letterIdxBits cache1) (remain1 - 1) pos1 sb)
      else Some (sb, pos))"

definition randStringBytesMaskImprSrcSB :: "Env \<Rightarrow> int \<Rightarrow> World \<Rightarrow> string option \<times> World" where
  "randStringBytesMaskImprSrcSB env n w =
     (case randString_loop (Int63 env) (n - 1) (Int63 env (draws w)) letterIdxMax (draws w + 1) [] of
        None \<Rightarrow> (None, w)
      | Some (sb, pos) \<Rightarrow> (Some sb, w\<lparr>draws := pos\<rparr>))"

definition NewRNSMsg :: "Env \<Rightarrow> string \<Rightarrow> World \<Rightarrow> Msg option \<times> World" where
  "NewRNSMsg env subject w =
     (let msg = NewMsg subject in
      case randStringBytesMaskImprSrcSB env 16 w of
        (None, w1) \<Rightarrow> (None, w1)
      | (Some ident, w1) \<Rightarrow> (Some (msg\<lparr>Header := Header_Set (Header msg) msgHeaderID ident\<rparr>), w1))"

definition getNRI :: "Env \<Rightarrow> Msg \<Rightarrow> nriT option" where
  "getNRI env msg =
     (let nri = Header_Get (Header msg) msgHeaderNRI in
      if nri = [] then None
      else case json_Unmarshal_nriT env nri of Inl err \<Rightarrow> None | Inr res \<Rightarrow> Some res)"

section \<open>protocol.go: reassembly of a chunked message\<close>

text \<open>
  The loop \<open>for i := 1; i <= pages; i++\<close> of \<open>ChunkReadRequestMsgWithContext\<close>.
  The result \<open>None\<close> means that the function never returns.
\<close>

function ChunkRead_loop ::
  "Env \<Rightarrow> Context \<Rightarrow> int \<Rightarrow> int \<Rightarrow> Msg \<Rightarrow> World \<Rightarrow> (error + Msg) option \<times> World" where
  "ChunkRead_loop env ctx pages i msg w =
     (if i \<le> pages then
        (case select_chunk env ctx w of (sel, w1) \<Rightarrow>
           (case sel of
              None \<Rightarrow> (None, w1)
            | Some (Inr chunk) \<Rightarrow>
                (let msg1 = msg\<lparr>Data := Data msg @ Data chunk\<rparr> in
                 if i < pages then
                   (let ackChunk = (NewMsg (Subject chunk))\<lparr>Header := copyHeader chunk\<rparr> in
                    case RespondMsg env chunk ackChunk w1 of (err, w2) \<Rightarrow>
                      (case err of
                         Some e \<Rightarrow> (Some (Inl (errors_Wrap e ''Chunk Reply Error'')), w2)
                       | None \<Rightarrow> ChunkRead_loop env ctx pages (i + 1) msg1 w2))
                 else ChunkRead_loop env ctx pages (i + 1) (msg1\<lparr>Reply := Reply chunk\<rparr>) w1)
            | Some (Inl done) \<Rightarrow> (Some (Inl context_DeadlineExceeded), w1)))
      else (Some (Inr msg), w))"
  by pat_completeness auto
termination
  by (relation "measure (\<lambda>(env, ctx, pages, i, msg, w). nat (pages + 1 - i))") auto

declare ChunkRead_loop.simps [simp del]

text \<open>
  The deferred calls \<open>close(chunkchan)\<close> and \<open>sub.Unsubscribe()\<close> run, in this order,
  whenever the function returns after the subscription was made.
\<close>

definition ChunkReadRequestMsgWithContext ::
  "Env \<Rightarrow> Context \<Rightarrow> Msg \<Rightarrow> World \<Rightarrow> (error + Msg) option \<times> World" where
  "ChunkReadRequestMsgWithContext env ctx msg w =
     (if length (Header_Get (Header msg) msgHeaderID) = 0 then
        (Some (Inl (errors_New ''MessageID Not Set'')), w)
      else
        let chunked = Header_Get (Header msg) msgHeaderChunk in
        if chunked \<noteq> [] then
          (case Atoi chunked of
             Inl err \<Rightarrow> (Some (Inl (errors_Wrap err ''Couldn't get Chunk Page Count'')), w)
           | Inr pages \<Rightarrow>
               (case randStringBytesMaskImprSrcSB env 16 w of
                  (None, w1) \<Rightarrow> (None, w1)
                | (Some chunktransfer, w1) \<Rightarrow>
                    let chunktransfersubject =
                          (case getNRI env msg of
                             Some nri \<Rightarrow> ''chunk.'' @ Acc nri @ ''.recieve.'' @ chunktransfer
                           | None \<Rightarrow> ''chunk.recieve.'' @ chunktransfer)
                    in
                    (case QueueSubscribeSyncWithChan env chunktransfersubject chunktransfer w1 of
                       (Some err, w2) \<Rightarrow>
                         (Some (Inl (errors_Wrap err ''Couldn't Subscribe to Chunk Channel'')), w2)
                     | (None, w2) \<Rightarrow>
                         let w3 = emit (PendingLimitsSet 1000 (64 * 1024 * 1024)) w2;
                             chunksubmsg = (NewMsg (Reply msg))
                               \<lparr>Header := Header_Add (copyHeader msg) msgHeaderChunkSubject chunktransfer\<rparr>;
                             w4 = snd (RespondMsg env msg chunksubmsg w3)
                         in
                         (case ChunkRead_loop env ctx pages 1 msg w4 of
                            (None, w5) \<Rightarrow> (None, w5)
                          | (Some res, w5) \<Rightarrow>
                              (Some res, emit (Unsubscribed chunktransfersubject) (emit ChanClosed w5))))))
        else (Some (Inr msg), w))"

section \<open>protocol.go: sending a request, chunked when it is large\<close>

text \<open>
  The message that carries chunk \<open>i\<close>; the two send operations build it with the same
  statements.
\<close>

definition chunkmsg_of :: "Msg \<Rightarrow> int \<Rightarrow> string \<Rightarrow> int \<Rightarrow> Msg" where
  "chunkmsg_of msg maxchunksize chunksubject i =
     (let chunkmsg = NewMsg chunksubject;
          hdr = Header_Set (copyHeader msg) msgHeaderChunkSeq (Sprintf_d i);
          start = maxchunksize * i;
          end = maxchunksize * (i + 1);
          end = (if int (length (Data msg)) < end then int (length (Data msg)) else end)
      in chunkmsg\<lparr>Header := hdr, Data := slice (Data msg) start end\<rparr>)"

function ChunkSendRequest_loop ::
  "Env \<Rightarrow> Context \<Rightarrow> Msg \<Rightarrow> int \<Rightarrow> int \<Rightarrow> string \<Rightarrow> int \<Rightarrow> World \<Rightarrow> (error + Msg) option \<times> World" where
  "ChunkSendRequest_loop env ctx msg maxchunksize pages chunksubject i w =
     (if i \<le> pages then
        (let chunkmsg = chunkmsg_of msg maxchunksize chunksubject i in
         case RequestMsgWithContext env ctx chunkmsg w of (res, w1) \<Rightarrow>
           (case res of
              Inl err \<Rightarrow> (Some (Inl (errors_Wrap err ''Chunk Send'')), w1)
            | Inr chunkackorreply \<Rightarrow>
                if i = pages then ChunkReadRequestMsgWithContext env ctx chunkackorreply w1
                else ChunkSendRequest_loop env ctx msg maxchunksize pages chunksubject (i + 1) w1))
      else (Some (Inl (errors_New ''Failed'')), w))"
  by pat_completeness auto
termination
  by (relation "measure (\<lambda>(env, ctx, msg, maxchunksize, pages, chunksubject, i, w). nat (pages + 1 - i))")
    auto

declare ChunkSendRequest_loop.simps [simp del]

definition initialchunk_of :: "Msg \<Rightarrow> int \<Rightarrow> int \<Rightarrow> Msg" where
  "initialchunk_of msg maxchunksize pages =
     (NewMsg (Subject msg))
       \<lparr>Header := Header_Set (copyHeader msg) msgHeaderChunk (Sprintf_d pages),
        Data := slice (Data msg) 0 maxchunksize\<rparr>"

definition ChunkSendRequestMsgWithContext ::
  "Env \<Rightarrow> Context \<Rightarrow> Msg \<Rightarrow> World \<Rightarrow> (error + Msg) option \<times> World" where
  "ChunkSendRequestMsgWithContext env ctx msg w =
     (if length (Header_Get (Header msg) msgHeaderID) = 0 then
        (Some (Inl (errors_New ''MessageID Not Set'')), w)
      else
        let maxchunksize = maxchunksize_of (MaxPayload env);
            datasize = int (length (Data msg))
        in
        if int (length (Data msg)) < maxchunksize then
          (case RequestMsgWithContext env ctx msg w of
             (Inl err, w1) \<Rightarrow> (Some (Inl (errors_Wrap err ''Short Message Send Failure'')), w1)
           | (Inr reply, w1) \<Rightarrow> ChunkReadRequestMsgWithContext env ctx reply w1)
        else
          let pages = datasize div maxchunksize;
              initialchunk = initialchunk_of msg maxchunksize pages
          in
          (case RequestMsgWithContext env ctx initialchunk w of
             (Inl err, w1) \<Rightarrow> (Some (Inl (errors_Wrap err ''chunkRequestMsgWithContext'')), w1)
           | (Inr chunkchannelmsg, w1) \<Rightarrow>
               let chunkid = Header_Get (Header chunkchannelmsg) msgHeaderChunkSubject in
               if chunkid = [] then
                 (Some (Inl (errors_New ''Chunked Reply Response didn't include ChunkID'')), w1)
               else
                 let chunksubject =
                       (case getNRI env chunkchannelmsg of
                          Some nri \<Rightarrow> ''chunk.'' @ Acc nri @ ''.send.'' @ chunkid
                        | None \<Rightarrow> ''chunk.send.'' @ chunkid)
                 in ChunkSendRequest_loop env ctx msg maxchunksize pages chunksubject 1 w1))"

section \<open>protocol.go: sending a reply, chunked when it is large\<close>




section \<open>nats.go: the typed dispatch\<close>

text \<open>
  The \<open>switch\<close> of \<open>SendMsgWithReply\<close>: for each of the seven commands the two type
  assertions, then the name of the operation.  A command value that no \<open>case\<close> lists
  falls through the \<open>switch\<close> with the empty operation name.
\<close>

definition check_schema :: "NatsCommand \<Rightarrow> iface \<Rightarrow> iface \<Rightarrow> error + string" where
  "check_schema op send recv =
     (if op = NatsOpenCmd then
        (if \<not> is_OpenOp send then
           Inl (errors_Errorf ''Struct Supplied to SendMsgWithReply is not a openOP: %T'' [ArgType (type_name send)])
         else if \<not> is_ptr_OpenResult recv then
           Inl (errors_Errorf ''Recv Struct supplied to SendMsgWithReply is not a openResult: %T'' [ArgType (type_name recv)])
         else Inr ''open'')
      else if op = NatsStatCmd then
        (if \<not> is_StatOp send then
           Inl (errors_Errorf ''Struct Supplied to SendMsgWithReply is not a statOp: %T'' [ArgType (type_name send)])
         else if \<not> is_ptr_StatResult recv then
           Inl (errors_Errorf ''Recv Struct supplied to SendMsgWithReply is not a statResult %T'' [ArgType (type_name recv)])
         else Inr ''stat'')
      else if op = NatsMkdirCmd then
        (if \<not> is_MkdirOp send then
           Inl (errors_Errorf ''Struct Supplied to SendMsgWithReply is not a mkdirOp: %T'' [ArgType (type_name send)])
         else if \<not> is_ptr_MkdirResult recv then
           Inl (errors_Errorf ''Recv Struct supplied to SendMsgWithReply is not a mkdirResult %T'' [ArgType (type_name recv)])
         else Inr ''mkdir'')
      else if op = NatsSaveCmd then
        (if \<not> is_SaveOp send then
           Inl (errors_Errorf ''Struct Supplied to SendMsgWithReply is not a saveOp: %T'' [ArgType (type_name send)])
         else if \<not> is_ptr_SaveResult recv then
           Inl (errors_Errorf ''Recv Struct supplied to SendMsgWithReply is not a saveResult %T'' [ArgType (type_name recv)])
         else Inr ''save'')
      else if op = NatsListCmd then
        (if \<not> is_ListOp send then
           Inl (errors_Errorf ''Struct Supplied to SendMsgWithReply is not a listOp: %T'' [ArgType (type_name send)])
         else if \<not> is_ptr_ListResult recv then
           Inl (errors_Errorf ''Recv Struct supplied to SendMsgWithReply is not a listResult %T'' [ArgType (type_name recv)])
         else Inr ''list'')
      else if op = NatsLoadCmd then
        (if \<not> is_LoadOp send then
           Inl (errors_Errorf ''Struct Supplied to SendMsgWithReply is not a loadOp: %T'' [ArgType (type_name send)])
         else if \<not> is_ptr_LoadResult recv then
           Inl (errors_Errorf ''Recv Struct supplied to SendMsgWithReply is not a loadResult %T'' [ArgType (type_name recv)])
         else Inr ''load'')
      else if op = NatsRemoveCmd then
        (if \<not> is_RemoveOp send then
           Inl (errors_Errorf ''Struct Supplied to SendMsgWithReply is not a removeOp: %T'' [ArgType (type_name send)])
         else if \<not> is_ptr_RemoveResult recv then
           Inl (errors_Errorf ''Recv Struct supplied to SendMsgWithReply is not a removeOp %T'' [ArgType (type_name recv)])
         else Inr ''remove'')
      else Inr [])"

text \<open>
  The statements of \<open>SendMsgWithReply\<close> between taking the token and the deferred
  release.  On success the result holds the value that \<open>Decode\<close> stored through \<open>recv\<close>.
  (The deferred debug log and the clock are left out.)
\<close>

definition SendMsgWithReply_body ::
  "Env \<Rightarrow> Context \<Rightarrow> NatsCommand \<Rightarrow> iface \<Rightarrow> iface \<Rightarrow> World \<Rightarrow> (error + iface) option \<times> World" where
  "SendMsgWithReply_body env ctx op send recv w =
     (case check_schema op send recv of
        Inl err \<Rightarrow> (Some (Inl err), w)
      | Inr operation \<Rightarrow>
          let subject = ''repo.commands.'' @ operation in
          (case NewRNSMsg env subject w of
             (None, w1) \<Rightarrow> (None, w1)
           | (Some msg0, w1) \<Rightarrow>
               let msg1 = msg0\<lparr>Header := Header_Set (Header msg0) ''X-RNS-OP'' operation\<rparr> in
               (case Encode env subject send of
                  Inl err \<Rightarrow> (Some (Inl (errors_Wrap err ''Encoding Failed'')), w1)
                | Inr data \<Rightarrow>
                    let msg = msg1\<lparr>Data := data, Reply := NewInbox env (trace w1)\<rparr> in
                    (case ChunkSendRequestMsgWithContext env ctx msg w1 of
                       (None, w2) \<Rightarrow> (None, w2)
                     | (Some (Inl err), w2) \<Rightarrow>
                         (Some (Inl (errors_Wrapf err ''ChunkRequestMsgWithContext Error: %d''
                                       [ArgInt (int (length (Data msg)))])), w2)
                     | (Some (Inr chunkedmsg), w2) \<Rightarrow>
                         (case Decode env (Subject chunkedmsg) (Data chunkedmsg) recv of
                            Inl err \<Rightarrow>
                              (Some (Inl (errors_Wrapf err ''Decode Failed %s %s %d''
                                 [ArgString (Header_Get (Header chunkedmsg) ''X-RNS-MSGID''),
                                  ArgHeader (Header chunkedmsg),
                                  ArgInt (int (length (Data chunkedmsg)))])), w2)
                          | Inr v \<Rightarrow> (Some (Inr v), w2))))))"

definition SendMsgWithReply ::
  "Env \<Rightarrow> Context \<Rightarrow> NatsCommand \<Rightarrow> iface \<Rightarrow> iface \<Rightarrow> World \<Rightarrow> (error + iface) option \<times> World" where
  "SendMsgWithReply env ctx op send recv w =
     (case GetToken w of
        None \<Rightarrow> (None, w)
      | Some w0 \<Rightarrow>
          (case SendMsgWithReply_body env ctx op send recv w0 of
             (None, w1) \<Rightarrow> (None, w1)
           | (Some res, w1) \<Rightarrow> (Some res, ReleaseToken w1)))"

section \<open>nats.go: the backend operations\<close>

text \<open>
  Modelled from the spec: the handle, the file types, the file information and the layout
  of the backup tool, which the repository imports and does not contain.  A handle is a
  type and a name; the layout maps a handle to its file name and directory and a file type
  to its base directory and recursion flag.  A reader is its declared length and what
  \<open>io.ReadAll\<close> gets from it.
\<close>

datatype FileType = PackFile | KeyFile | LockFile | SnapshotFile | IndexFile | ConfigFile

record Handle =
  Handle_Type :: FileType
  Handle_Name :: string

record restic_FileInfo =
  restic_Size :: int
  restic_Name :: string

record Layout =
  Filename :: "Handle \<Rightarrow> string"
  Dirname :: "Handle \<Rightarrow> string"
  Basedir :: "FileType \<Rightarrow> string \<times> bool"

record RewindReader =
  rd_Length :: int
  rd_ReadAll :: "byte list \<times> error option"

record Backend =
  cfg :: Config
  layout :: Layout

text \<open>The value of a reply variable after the call: what was stored through its pointer.\<close>

definition stored_StatResult :: "StatResult \<Rightarrow> iface \<Rightarrow> StatResult" where
  "stored_StatResult result v = (case v of P_StatResult r \<Rightarrow> r | _ \<Rightarrow> result)"

definition stored_RemoveResult :: "RemoveResult \<Rightarrow> iface \<Rightarrow> RemoveResult" where
  "stored_RemoveResult result v = (case v of P_RemoveResult r \<Rightarrow> r | _ \<Rightarrow> result)"

definition stored_SaveResult :: "SaveResult \<Rightarrow> iface \<Rightarrow> SaveResult" where
  "stored_SaveResult result v = (case v of P_SaveResult r \<Rightarrow> r | _ \<Rightarrow> result)"

definition stored_LoadResult :: "LoadResult \<Rightarrow> iface \<Rightarrow> LoadResult" where
  "stored_LoadResult result v = (case v of P_LoadResult r \<Rightarrow> r | _ \<Rightarrow> result)"

definition stored_ListResult :: "ListResult \<Rightarrow> iface \<Rightarrow> ListResult" where
  "stored_ListResult result v = (case v of P_ListResult r \<Rightarrow> r | _ \<Rightarrow> result)"

definition stored_MkdirResult :: "MkdirResult \<Rightarrow> iface \<Rightarrow> MkdirResult" where
  "stored_MkdirResult result v = (case v of P_MkdirResult r \<Rightarrow> r | _ \<Rightarrow> result)"

definition Stat ::
  "Backend \<Rightarrow> Env \<Rightarrow> Context \<Rightarrow> Handle \<Rightarrow> World \<Rightarrow> (error + restic_FileInfo) option \<times> World" where
  "Stat b env ctx h w =
     (let op = \<lparr>StatOp_Bucket = Repo (cfg b), StatOp_Filename = Filename (layout b) h\<rparr>;
          result = \<lparr>StatResult_Ok = False, StatResult_Size = 0, StatResult_Name = []\<rparr>
      in case SendMsgWithReply env Background NatsStatCmd (V_StatOp op) (P_StatResult result) w of
           (None, w1) \<Rightarrow> (None, w1)
         | (Some (Inl err), w1) \<Rightarrow> (Some (Inl (errors_Wrap err ''statOp Failed'')), w1)
         | (Some (Inr v), w1) \<Rightarrow>
             let result = stored_StatResult result v in
             if StatResult_Ok result then
               (Some (Inr \<lparr>restic_Size = StatResult_Size result, restic_Name = Handle_Name h\<rparr>), w1)
             else (Some (Inl (errors_New ''File does not exist'')), w1))"

definition Test ::
  "Backend \<Rightarrow> Env \<Rightarrow> Context \<Rightarrow> Handle \<Rightarrow> World \<Rightarrow> (bool \<times> error option) option \<times> World" where
  "Test b env ctx h w =
     (case Stat b env ctx h w of
        (None, w1) \<Rightarrow> (None, w1)
      | (Some (Inl err), w1) \<Rightarrow> (Some (False, None), w1)
      | (Some (Inr fi), w1) \<Rightarrow> (Some (True, None), w1))"

definition Remove ::
  "Backend \<Rightarrow> Env \<Rightarrow> Context \<Rightarrow> Handle \<Rightarrow> World \<Rightarrow> error option option \<times> World" where
  "Remove b env ctx h w =
     (let ro = \<lparr>RemoveOp_Bucket = Repo (cfg b), RemoveOp_Dir = Dirname (layout b) h,
                RemoveOp_Name = filepath_Base env (Filename (layout b) h)\<rparr>;
          result = \<lparr>RemoveResult_Ok = False\<rparr>
      in case SendMsgWithReply env Background NatsRemoveCmd (V_RemoveOp ro) (P_RemoveResult result) w of
           (None, w1) \<Rightarrow> (None, w1)
         | (Some (Inl err), w1) \<Rightarrow> (Some (Some (errors_Wrap err ''Remove: SendMsgWithReply Failed'')), w1)
         | (Some (Inr v), w1) \<Rightarrow>
             let result = stored_RemoveResult result v in
             if RemoveResult_Ok result then (Some None, w1)
             else (Some (Some (errors_Errorf ''Remove Failed'' [])), w1))"

definition Save ::
  "Backend \<Rightarrow> Env \<Rightarrow> Context \<Rightarrow> Handle \<Rightarrow> RewindReader \<Rightarrow> World \<Rightarrow> error option option \<times> World" where
  "Save b env ctx h rd w =
     (let so = \<lparr>SaveOp_Bucket = Repo (cfg b), SaveOp_Dir = Dirname (layout b) h,
                SaveOp_Name = filepath_Base env (Filename (layout b) h),
                SaveOp_Filesize = rd_Length rd,
                SaveOp_PacketSize = int (length (fst (rd_ReadAll rd))),
                SaveOp_Offset = 0, SaveOp_Data = fst (rd_ReadAll rd)\<rparr>
      in case snd (rd_ReadAll rd) of
           Some err \<Rightarrow> (Some (Some (errors_Wrap err ''Save'')), w)
         | None \<Rightarrow>
             let result = \<lparr>SaveResult_Ok = False\<rparr> in
             (case SendMsgWithReply env Background NatsSaveCmd (V_SaveOp so) (P_SaveResult result) w of
                (None, w1) \<Rightarrow> (None, w1)
              | (Some (Inl err), w1) \<Rightarrow> (Some (Some (errors_Wrap err ''Save: SendMsgWithReply Failed'')), w1)
              | (Some (Inr v), w1) \<Rightarrow>
                  let result = stored_SaveResult result v in
                  if SaveResult_Ok result then (Some None, w1)
                  else (Some (Some (errors_Errorf ''Save Failed'' [])), w1)))"

definition Load ::
  "Backend \<Rightarrow> Env \<Rightarrow> Context \<Rightarrow> Handle \<Rightarrow> int \<Rightarrow> int \<Rightarrow> (byte list \<Rightarrow> error option) \<Rightarrow> World
     \<Rightarrow> error option option \<times> World" where
  "Load b env ctx h len offset fn w =
     (let lo = \<lparr>LoadOp_Bucket = Repo (cfg b), LoadOp_Dir = Dirname (layout b) h,
                LoadOp_Name = filepath_Base env (Filename (layout b) h),
                LoadOp_Length = len, LoadOp_Offset = offset\<rparr>;
          result = \<lparr>LoadResult_Ok = False, LoadResult_Data = []\<rparr>
      in case SendMsgWithReply env Background NatsLoadCmd (V_LoadOp lo) (P_LoadResult result) w of
           (None, w1) \<Rightarrow> (None, w1)
         | (Some (Inl err), w1) \<Rightarrow> (Some (Some (errors_Wrap err ''Save: SendMsgWithReply Failed'')), w1)
         | (Some (Inr v), w1) \<Rightarrow>
             let result = stored_LoadResult result v in
             if \<not> LoadResult_Ok result then (Some (Some (errors_Errorf ''Load Failed'' [])), w1)
             else (case fn (LoadResult_Data result) of
                     Some err \<Rightarrow> (Some (Some (errors_Wrap err ''Load Read'')), w1)
                   | None \<Rightarrow> (Some None, w1)))"

fun List_range :: "(restic_FileInfo \<Rightarrow> error option) \<Rightarrow> FileInfo list \<Rightarrow> error option" where
  "List_range fn [] = None"
| "List_range fn (fi # rest) =
     (let rfi = \<lparr>restic_Size = FileInfo_Size fi, restic_Name = FileInfo_Name fi\<rparr> in
      case fn rfi of Some err \<Rightarrow> Some err | None \<Rightarrow> List_range fn rest)"

definition List ::
  "Backend \<Rightarrow> Env \<Rightarrow> Context \<Rightarrow> FileType \<Rightarrow> (restic_FileInfo \<Rightarrow> error option) \<Rightarrow> World
     \<Rightarrow> error option option \<times> World" where
  "List b env ctx t fn w =
     (let op = \<lparr>ListOp_Bucket = Repo (cfg b), ListOp_BaseDir = fst (Basedir (layout b) t),
                ListOp_SubDir = snd (Basedir (layout b) t)\<rparr>;
          result = \<lparr>ListResult_Ok = False, ListResult_FI = []\<rparr>
      in case SendMsgWithReply env Background NatsListCmd (V_ListOp op) (P_ListResult result) w of
           (None, w1) \<Rightarrow> (None, w1)
         | (Some (Inl err), w1) \<Rightarrow> (Some (Some (errors_Wrap err ''listOp Failed'')), w1)
         | (Some (Inr v), w1) \<Rightarrow>
             let result = stored_ListResult result v in
             (Some (List_range fn (ListResult_FI result)), w1))"

definition Mkdir ::
  "Backend \<Rightarrow> Env \<Rightarrow> Context \<Rightarrow> string \<Rightarrow> World \<Rightarrow> error option option \<times> World" where
  "Mkdir b env ctx dir w =
     (let op = \<lparr>MkdirOp_Bucket = Repo (cfg b), MkdirOp_Dir = dir\<rparr>;
          result = \<lparr>MkdirResult_Ok = False\<rparr>
      in case SendMsgWithReply env Background NatsMkdirCmd (V_MkdirOp op) (P_MkdirResult result) w of
           (None, w1) \<Rightarrow> (None, w1)
         | (Some (Inl err), w1) \<Rightarrow> (Some (Some (errors_Wrap err ''natsMkdirCmd Failed'')), w1)
         | (Some (Inr v), w1) \<Rightarrow>
             let result = stored_MkdirResult result v in
             if MkdirResult_Ok result then (Some None, w1)
             else (Some (Some (errors_New ''mkdir Failed'')), w1))"

section \<open>Observing a trace\<close>

text \<open>
  The chunks taken from the channel, the messages sent with request-with-context and the
  messages published, in the order of the trace; and the actions that the reassembly
  loop, and the whole of the reassembly, can add under a context.
\<close>

definition received :: "action list \<Rightarrow> Msg list" where
  "received as = [c. ChunkReceived c \<leftarrow> as]"

definition requests :: "action list \<Rightarrow> Msg list" where
  "requests as = [m. Requested c m \<leftarrow> as]"

definition published :: "action list \<Rightarrow> Msg list" where
  "published as = [m. Published m \<leftarrow> as]"

fun is_reassembly_action :: "Context \<Rightarrow> action \<Rightarrow> bool" where
  "is_reassembly_action ctx (Awaited c) = (c = ctx)"
| "is_reassembly_action ctx (ChunkReceived m) = True"
| "is_reassembly_action ctx (ContextDone c) = (c = ctx)"
| "is_reassembly_action ctx (Responded to m) = True"
| "is_reassembly_action ctx a = False"

fun is_read_action :: "Context \<Rightarrow> action \<Rightarrow> bool" where
  "is_read_action ctx (SubscribeCalled s q) = True"
| "is_read_action ctx (Subscribed s q) = True"
| "is_read_action ctx (PendingLimitsSet m b) = True"
| "is_read_action ctx (Unsubscribed s) = True"
| "is_read_action ctx ChanClosed = True"
| "is_read_action ctx a = is_reassembly_action ctx a"

text \<open>What a run of the reassembly loop, and of the whole reassembly, leaves behind.\<close>

definition loop_post ::
  "Context \<Rightarrow> int \<Rightarrow> int \<Rightarrow> Msg \<Rightarrow> (error + Msg) option \<Rightarrow> action list \<Rightarrow> bool" where
  "loop_post ctx pages i msg r new =
     (list_all (is_reassembly_action ctx) new
      \<and> (ContextDone ctx \<in> set new \<longrightarrow> r = Some (Inl context_DeadlineExceeded))
      \<and> (\<forall>m. r = Some (Inr m) \<longrightarrow>
            Data m = Data msg @ concat (map Data (received new))
            \<and> int (length (received new)) = max 0 (pages + 1 - i)
            \<and> Header m = Header msg \<and> Subject m = Subject msg))"

definition read_post :: "Context \<Rightarrow> Msg \<Rightarrow> (error + Msg) option \<Rightarrow> action list \<Rightarrow> bool" where
  "read_post ctx msg r new =
     ((new = [] \<and> (r = None \<or> (\<exists>e. r = Some (Inl e))
          \<or> (r = Some (Inr msg) \<and> Header_Get (Header msg) msgHeaderChunk = [])))
      \<or> (\<exists>s q e. new = [SubscribeCalled s q] \<and> r = Some (Inl e))
      \<or> (\<exists>s q sub loop pages.
            new = [SubscribeCalled s q, Subscribed s q, PendingLimitsSet 1000 67108864,
                   Responded msg sub] @ loop @ (if r = None then [] else [ChanClosed, Unsubscribed s])
            \<and> Atoi (Header_Get (Header msg) msgHeaderChunk) = Inr pages
            \<and> loop_post ctx pages 1 msg r loop))"

text \<open>
  The actions of the semaphore, and the actions that the two send operations can add
  under a context.
\<close>

fun is_token_action :: "action \<Rightarrow> bool" where
  "is_token_action TokenAcquired = True"
| "is_token_action TokenReleased = True"
| "is_token_action a = False"

fun is_send_action :: "Context \<Rightarrow> action \<Rightarrow> bool" where
  "is_send_action ctx (Requested c m) = (c = ctx)"
| "is_send_action ctx a = is_read_action ctx a"


text \<open>
  Every request of \<open>new\<close> that is followed by a further action had returned a message
  (and no error) when it was made after the trace \<open>t0\<close>.
\<close>

fun acked :: "Env \<Rightarrow> action list \<Rightarrow> action list \<Rightarrow> bool" where
  "acked env t0 [] = True"
| "acked env t0 (a # rest) =
     ((case a of
         Requested c m \<Rightarrow> rest = [] \<or> (\<exists>ack. request_result env (t0 @ [a]) = Inr ack)
       | _ \<Rightarrow> True)
      \<and> acked env (t0 @ [a]) rest)"

text \<open>What a run of each send loop leaves behind.\<close>

definition send_loop_post ::
  "Env \<Rightarrow> Context \<Rightarrow> (int \<Rightarrow> Msg) \<Rightarrow> int \<Rightarrow> int \<Rightarrow> World \<Rightarrow> (error + Msg) option \<Rightarrow> World \<Rightarrow> bool" where
  "send_loop_post env ctx chunk pages i w r w' =
     ((\<exists>new. trace w' = trace w @ new \<and> tokens w' = tokens w
          \<and> list_all (is_send_action ctx) new \<and> acked env (trace w) new)
      \<and> (\<forall>m. r = Some (Inr m) \<longrightarrow>
            (\<exists>reply.
               request_result env (trace w @ map (\<lambda>j. Requested ctx (chunk j)) [i..pages]) = Inr reply
               \<and> ChunkReadRequestMsgWithContext env ctx reply
                    (w\<lparr>trace := trace w @ map (\<lambda>j. Requested ctx (chunk j)) [i..pages]\<rparr>) = (r, w'))))"


text \<open>The subject of the follow-on chunks, as both send operations build it.\<close>

definition chunksubject_of :: "Env \<Rightarrow> Msg \<Rightarrow> string \<Rightarrow> string" where
  "chunksubject_of env m chunkid =
     (case getNRI env m of
        Some nri \<Rightarrow> ''chunk.'' @ Acc nri @ ''.send.'' @ chunkid
      | None \<Rightarrow> ''chunk.send.'' @ chunkid)"

text \<open>The actions that a run from the world \<open>w\<close> to the world \<open>w'\<close> has added.\<close>

definition since :: "World \<Rightarrow> World \<Rightarrow> action list" where
  "since w w' = drop (length (trace w)) (trace w')"

section \<open>Example environments and messages\<close>

text \<open>
  A responder that answers every request with \<open>reply\<close>, a bus on which every publish,
  respond and subscribe succeeds, a chunk channel on which every wait meets \<open>sel\<close>, a
  random source that always gives 0, and a decoder \<open>dec\<close>; a message with an identifier
  and, when \<open>chunks\<close> is not empty, a chunk count; a world with five free tokens.
\<close>

definition fixture_env :: "Msg \<Rightarrow> selected \<Rightarrow> (iface \<Rightarrow> error + iface) \<Rightarrow> Env" where
  "fixture_env reply sel dec = \<lparr>MaxPayload = 8388608,
     request_result = (\<lambda>h. Inr reply),
     publish_result = (\<lambda>h. None),
     respond_result = (\<lambda>h. None),
     subscribe_result = (\<lambda>h. None),
     select_result = (\<lambda>h. sel),
     Int63 = (\<lambda>k. 0),
     NewInbox = (\<lambda>h. ''_INBOX.1''),
     Encode = (\<lambda>subject v. Inr [1, 2, 3]),
     Decode = (\<lambda>subject data v. dec v),
     json_Unmarshal_nriT = (\<lambda>s. Inl (External ''json'')),
     filepath_Base = (\<lambda>p. p)\<rparr>"

definition fixture_msg :: "string \<Rightarrow> byte list \<Rightarrow> Msg" where
  "fixture_msg chunks payload = \<lparr>Subject = ''_INBOX.1'', Reply = ''_INBOX.2'',
     Header = (if chunks = [] then Header_Set make_Header msgHeaderID ''abcdefghijklmnop''
               else Header_Set (Header_Set make_Header msgHeaderID ''abcdefghijklmnop'') msgHeaderChunk chunks),
     Data = payload\<rparr>"

definition fixture_world :: World where
  "fixture_world = \<lparr>trace = [], tokens = 5, draws = 0\<rparr>"


definition fixture_ack :: Msg where
  "fixture_ack = \<lparr>Subject = ''_INBOX.1'', Reply = [],
     Header = Header_Set (Header_Set make_Header msgHeaderID ''abcdefghijklmnop'')
                msgHeaderChunkSubject ''T1'',
     Data = [4, 5]\<rparr>"



text \<open>
  The seven command tags, and the request type and the reply type that the specification
  pairs with each tag; the reply slot of a call is a pointer to the reply type.  These
  two predicates follow the words of the specification and the declarations of the types
  in \<open>protocol.go\<close>; \<open>check_schema\<close> above follows the \<open>switch\<close> of the source.
\<close>

definition command_tags :: "NatsCommand list" where
  "command_tags = [NatsOpenCmd, NatsStatCmd, NatsMkdirCmd, NatsSaveCmd, NatsListCmd, NatsLoadCmd,
     NatsRemoveCmd]"

definition request_schema :: "NatsCommand \<Rightarrow> iface \<Rightarrow> bool" where
  "request_schema tag v =
     (if tag = NatsOpenCmd then is_OpenOp v
      else if tag = NatsStatCmd then is_StatOp v
      else if tag = NatsMkdirCmd then is_MkdirOp v
      else if tag = NatsSaveCmd then is_SaveOp v
      else if tag = NatsListCmd then is_ListOp v
      else if tag = NatsLoadCmd then is_LoadOp v
      else if tag = NatsRemoveCmd then is_RemoveOp v
      else False)"

definition reply_schema :: "NatsCommand \<Rightarrow> iface \<Rightarrow> bool" where
  "reply_schema tag v =
     (if tag = NatsOpenCmd then is_ptr_OpenResult v
      else if tag = NatsStatCmd then is_ptr_StatResult v
      else if tag = NatsMkdirCmd then is_ptr_MkdirResult v
      else if tag = NatsSaveCmd then is_ptr_SaveResult v
      else if tag = NatsListCmd then is_ptr_ListResult v
      else if tag = NatsLoadCmd then is_ptr_LoadResult v
      else if tag = NatsRemoveCmd then is_ptr_RemoveResult v
      else False)"

text \<open>
  The request that the dispatch builds in the example environment, a decoder that stores
  a \<open>StatResult\<close> with a given \<open>Ok\<close>, a handle and a backend.
\<close>

definition fixture_request :: "string \<Rightarrow> Msg" where
  "fixture_request operation = \<lparr>Subject = ''repo.commands.'' @ operation, Reply = ''_INBOX.1'',
     Header = Header_Set (Header_Set make_Header msgHeaderID ''aaaaaaaaaaaaaaaa'')
                ''X-RNS-OP'' operation,
     Data = [1, 2, 3]\<rparr>"

definition fixture_decode_stat :: "bool \<Rightarrow> iface \<Rightarrow> error + iface" where
  "fixture_decode_stat ok v =
     Inr (P_StatResult \<lparr>StatResult_Ok = ok, StatResult_Size = 42, StatResult_Name = ''config''\<rparr>)"

definition fixture_handle :: Handle where
  "fixture_handle = \<lparr>Handle_Type = ConfigFile, Handle_Name = ''config''\<rparr>"

definition fixture_backend :: Backend where
  "fixture_backend = \<lparr>cfg = NewConfig\<lparr>Repo := ''repo''\<rparr>,
     layout = \<lparr>Filename = (\<lambda>h. ''/'' @ Handle_Name h), Dirname = (\<lambda>h. ''/''),
               Basedir = (\<lambda>t. (''/'', False))\<rparr>\<rparr>"

section \<open>Properties of the configuration parser\<close>

lemma index_Inr_iff: "(\<exists>c. index s i = Inr c) \<longleftrightarrow> 0 \<le> i \<and> i < int (length s)"
  by (simp add: index_def)

lemma index_empty: "index [] i = Inl (IndexOutOfRange i 0)"
  by (simp add: index_def)

lemma index_0_Cons: "index (c # cs) 0 = Inr c"
  by (simp add: index_def)

lemma index_last: "s \<noteq> [] \<Longrightarrow> index s (int (length s) - 1) = Inr (last s)"
  by (cases s rule: rev_cases) (simp_all add: index_def nat_diff_distrib')

lemma ParseConfig_empty_path:
  assumes "HasPrefix s ''nats:''" and "url_Parse s = Inr u" and "Path u = []"
  shows "ParseConfig url_Parse s = Panics (IndexOutOfRange 0 0)"
  using assms by (simp add: ParseConfig_def index_empty)

lemma ParseConfig_no_leading_slash:
  assumes "HasPrefix s ''nats:''" and "url_Parse s = Inr u"
    and "Path u = c # cs" and "c \<noteq> CHR ''/''"
  shows "ParseConfig url_Parse s = Panics (IndexOutOfRange (- 1) 0)"
  using assms by (simp add: ParseConfig_def index_0_Cons index_empty)

lemma ParseConfig_only_slash:
  assumes "HasPrefix s ''nats:''" and "url_Parse s = Inr u" and "Path u = ''/''"
  shows "ParseConfig url_Parse s = Panics (IndexOutOfRange (- 1) 0)"
  using assms by (simp add: ParseConfig_def index_0_Cons index_empty)

lemma ParseConfig_returns:
  assumes "HasPrefix s ''nats:''" and "url_Parse s = Inr u"
    and "Path u = CHR ''/'' # rest" and "rest \<noteq> []"
  shows "ParseConfig url_Parse s =
           Returns (Inr (NewConfig\<lparr>Server := Some u,
             Repo := Replace_slash_dot (if last rest = CHR ''/'' then butlast rest else rest)\<rparr>))"
  using assms
  by (simp add: ParseConfig_def index_0_Cons index_last Let_def butlast_conv_take)

text \<open>
  C10.  For a configuration string that passes the prefix check and that \<open>url.Parse\<close>
  accepts: when the URL path is empty, is \<open>"/"\<close>, or does not begin with a slash,
  \<open>ParseConfig\<close> panics with an index out of range and returns no error value; it
  returns (a configuration) exactly when the path is a slash followed by a non-empty rest.
\<close>

theorem C10_ParseConfig_panics:
  assumes "HasPrefix s ''nats:''" and "url_Parse s = Inr u"
  shows "(Path u = [] \<or> Path u = ''/'' \<or> hd (Path u) \<noteq> CHR ''/'' \<longrightarrow>
            (\<exists>i n. ParseConfig url_Parse s = Panics (IndexOutOfRange i n)))
       \<and> ((\<exists>r. ParseConfig url_Parse s = Returns r) \<longleftrightarrow>
            (\<exists>rest. Path u = CHR ''/'' # rest \<and> rest \<noteq> []))
       \<and> (\<forall>r. ParseConfig url_Parse s = Returns r \<longrightarrow> (\<exists>cfg. r = Inr cfg))"
proof (cases "Path u")
  case Nil
  then show ?thesis
    using assms ParseConfig_empty_path [of s url_Parse u] by simp
next
  case (Cons c cs)
  show ?thesis
  proof (cases "c = CHR ''/''")
    case False
    then show ?thesis
      using assms Cons ParseConfig_no_leading_slash [of s url_Parse u c cs] by simp
  next
    case True
    show ?thesis
    proof (cases "cs = []")
      case True
      with \<open>c = CHR ''/''\<close> Cons have "Path u = ''/''" by simp
      then show ?thesis
        using assms ParseConfig_only_slash [of s url_Parse u] by simp
    next
      case False
      from Cons \<open>c = CHR ''/''\<close> have p: "Path u = CHR ''/'' # cs" by simp
      show ?thesis
        using assms p False ParseConfig_returns [of s url_Parse u cs] by simp
    qed
  qed
qed

theorem C10_ParseConfig_panics_witness:
  "HasPrefix ''nats://host'' ''nats:''
   \<and> (\<exists>i n. ParseConfig (\<lambda>_. Inr \<lparr>Scheme = ''nats'', Host = ''host'', Path = []\<rparr>) ''nats://host''
         = Panics (IndexOutOfRange i n))
   \<and> \<not> (\<exists>r. ParseConfig (\<lambda>_. Inr \<lparr>Scheme = ''nats'', Host = ''host'', Path = []\<rparr>) ''nats://host''
         = Returns r)"
proof -
  have h: "HasPrefix ''nats://host'' ''nats:''"
    by (simp add: HasPrefix_def)
  show ?thesis
    using h C10_ParseConfig_panics [of "''nats://host''"
        "\<lambda>_. Inr \<lparr>Scheme = ''nats'', Host = ''host'', Path = []\<rparr>"
        "\<lparr>Scheme = ''nats'', Host = ''host'', Path = []\<rparr>"]
    by simp
qed

section \<open>Properties of the chunk size\<close>

text \<open>
  C9.  In both chunk send operations the effective \<open>maxchunksize\<close> is exactly 972800
  bytes, which is \<open>0.95 \<times> 1024000\<close>, whatever maximum payload the connection advertises.
\<close>

theorem C9_maxchunksize_pinned:
  "maxchunksize_of max_payload = 972800
   \<and> (of_int (maxchunksize_of max_payload) :: rat) = 1024000 * (95 / 100)"
  by (simp add: maxchunksize_of_def pinned_chunksize_def Let_def)

section \<open>Headers, decimal numbers and message identifiers\<close>


lemma Header_Get_Set_other: "k' \<noteq> k \<Longrightarrow> Header_Get (Header_Set h k v) k' = Header_Get h k'"
  by (simp add: Header_Get_def Header_Set_def)

lemma Header_Get_copyHeader_ID:
  "Header_Get (copyHeader m) msgHeaderID = Header_Get (Header m) msgHeaderID"
  by (simp add: copyHeader_def Header_Get_def Header_Add_def make_Header_def Let_def
      msgHeaderID_def msgHeaderChunk_def msgHeaderOperation_def)










lemma randString_loop_length:
  assumes "randString_loop src i cache remain pos sb = Some y"
  shows "- 1 \<le> i \<longrightarrow> length (fst y) = length sb + nat (i + 1)"
proof (rule randString_loop.raw_induct
    [where P = "\<lambda>src i cache remain pos sb y. - 1 \<le> i \<longrightarrow> length (fst y) = length sb + nat (i + 1)",
     OF _ assms])
  fix loop :: "(nat \<Rightarrow> int) \<Rightarrow> int \<Rightarrow> int \<Rightarrow> int \<Rightarrow> nat \<Rightarrow> string \<Rightarrow> (string \<times> nat) option"
  fix src i cache remain pos sb y
  assume IH: "\<And>src i cache remain pos sb y. loop src i cache remain pos sb = Some y \<Longrightarrow>
                 - 1 \<le> i \<longrightarrow> length (fst y) = length sb + nat (i + 1)"
  assume eq: "(if 0 \<le> i then
        (let cache1 = (if remain = 0 then src pos else cache);
             remain1 = (if remain = 0 then letterIdxMax else remain);
             pos1 = (if remain = 0 then pos + 1 else pos);
             idx = cache1 AND letterIdxMask
         in if idx < int (length letterBytes)
            then loop src (i - 1) (drop_bit letterIdxBits cache1) (remain1 - 1) pos1
                   (sb @ [letterBytes ! nat idx])
            else loop src i (drop_bit letterIdxBits cache1) (remain1 - 1) pos1 sb)
      else Some (sb, pos)) = Some y"
  show "- 1 \<le> i \<longrightarrow> length (fst y) = length sb + nat (i + 1)"
  proof (cases "0 \<le> i")
    case False
    with eq show ?thesis by auto
  next
    case True
    define cache1 where "cache1 = (if remain = 0 then src pos else cache)"
    define remain1 where "remain1 = (if remain = 0 then letterIdxMax else remain)"
    define pos1 where "pos1 = (if remain = 0 then pos + 1 else pos)"
    define idx where "idx = cache1 AND letterIdxMask"
    show ?thesis
    proof (cases "idx < int (length letterBytes)")
      case lt: True
      with True eq have
        "loop src (i - 1) (drop_bit letterIdxBits cache1) (remain1 - 1) pos1
           (sb @ [letterBytes ! nat idx]) = Some y"
        by (simp add: Let_def cache1_def remain1_def pos1_def idx_def)
      from IH [OF this] True show ?thesis
        by (simp add: nat_add_distrib)
    next
      case ge: False
      with True eq have
        "loop src i (drop_bit letterIdxBits cache1) (remain1 - 1) pos1 sb = Some y"
        by (simp add: Let_def cache1_def remain1_def pos1_def idx_def)
      from IH [OF this] True show ?thesis
        by simp
    qed
  qed
qed

lemma randStringBytesMaskImprSrcSB_length:
  assumes "randStringBytesMaskImprSrcSB env n w = (Some s, w')" and "0 \<le> n"
  shows "length s = nat n"
proof -
  from assms(1) obtain pos where
    "randString_loop (Int63 env) (n - 1) (Int63 env (draws w)) letterIdxMax (draws w + 1) [] = Some (s, pos)"
    by (auto simp: randStringBytesMaskImprSrcSB_def split: option.splits)
  from randString_loop_length [OF this] assms(2) show ?thesis by simp
qed

section \<open>Runs of the reassembly\<close>

lemma received_simps [simp]:
  "received [] = []"
  "received (ChunkReceived c # as) = c # received as"
  "received (Awaited x # as) = received as"
  "received (ContextDone x # as) = received as"
  "received (Responded t m # as) = received as"
  "received (SubscribeCalled s q # as) = received as"
  "received (Subscribed s q # as) = received as"
  "received (PendingLimitsSet a b # as) = received as"
  "received (Unsubscribed s # as) = received as"
  "received (ChanClosed # as) = received as"
  "received (xs @ ys) = received xs @ received ys"
  by (simp_all add: received_def)

lemma is_reassembly_is_read: "is_reassembly_action ctx a \<Longrightarrow> is_read_action ctx a"
  by (cases a) simp_all

lemma list_all_reassembly_read:
  "list_all (is_reassembly_action ctx) as \<Longrightarrow> list_all (is_read_action ctx) as"
  by (induction as) (simp_all add: is_reassembly_is_read)

lemma select_chunk_cases:
  assumes "select_chunk env ctx w = (sel, w1)"
  shows "tokens w1 = tokens w \<and> draws w1 = draws w \<and>
     (case sel of
        None \<Rightarrow> trace w1 = trace w @ [Awaited ctx]
      | Some (Inr chunk) \<Rightarrow> trace w1 = trace w @ [Awaited ctx, ChunkReceived chunk]
      | Some (Inl u) \<Rightarrow> trace w1 = trace w @ [Awaited ctx, ContextDone ctx])"
  using assms
  by (auto simp: select_chunk_def emit_def Let_def split: selected.splits if_splits)

lemma RespondMsg_run:
  assumes "RespondMsg env to m w = (err, w1)"
  shows "trace w1 = trace w @ [Responded to m] \<and> tokens w1 = tokens w \<and> draws w1 = draws w"
  using assms by (auto simp: RespondMsg_def emit_def Let_def)

lemma loop_post_step:
  assumes "loop_post ctx pages (i + 1) msg1 r new"
    and "Data msg1 = Data msg @ Data chunk" and "Header msg1 = Header msg"
    and "Subject msg1 = Subject msg" and "i \<le> pages"
    and "list_all (is_reassembly_action ctx) pre" and "received pre = [chunk]"
    and "ContextDone ctx \<notin> set pre"
  shows "loop_post ctx pages i msg r (pre @ new)"
proof -
  have "Data m = Data msg @ concat (map Data (received (pre @ new)))
        \<and> int (length (received (pre @ new))) = max 0 (pages + 1 - i)
        \<and> Header m = Header msg \<and> Subject m = Subject msg" if "r = Some (Inr m)" for m
  proof -
    from assms(1) that have
      "Data m = Data msg1 @ concat (map Data (received new))"
      "int (length (received new)) = max 0 (pages + 1 - (i + 1))"
      "Header m = Header msg1" "Subject m = Subject msg1"
      unfolding loop_post_def by blast+
    with assms(2-7) show ?thesis by (simp add: max_def)
  qed
  moreover from assms(1,6) have "list_all (is_reassembly_action ctx) (pre @ new)"
    unfolding loop_post_def by simp
  moreover from assms(1,8) have
    "ContextDone ctx \<in> set (pre @ new) \<longrightarrow> r = Some (Inl context_DeadlineExceeded)"
    unfolding loop_post_def by auto
  ultimately show ?thesis
    unfolding loop_post_def by blast
qed

lemma ChunkRead_loop_run:
  "ChunkRead_loop env ctx pages i msg w = (r, w') \<Longrightarrow>
   \<exists>new. trace w' = trace w @ new \<and> tokens w' = tokens w \<and> draws w' = draws w
     \<and> loop_post ctx pages i msg r new"
proof (induction env ctx pages i msg w arbitrary: r w' rule: ChunkRead_loop.induct)
  case (1 env ctx pages i msg w)
  note run = "1.prems" [unfolded ChunkRead_loop.simps [of env ctx pages i msg w]]
  show ?case
  proof (cases "i \<le> pages")
    case False
    with run have "r = Some (Inr msg)" "w' = w"
      by simp_all
    with False show ?thesis by (simp add: loop_post_def)
  next
    case True
    obtain sel w1 where sel: "select_chunk env ctx w = (sel, w1)"
      by (cases "select_chunk env ctx w")
    note sc = select_chunk_cases [OF sel]
    show ?thesis
    proof (cases sel)
      case None
      with True sel run have "r = None" "w' = w1"
        by simp_all
      with sc None show ?thesis by (simp add: loop_post_def)
    next
      case (Some x)
      show ?thesis
      proof (cases x)
        case (Inl u)
        with Some True sel run have "r = Some (Inl context_DeadlineExceeded)" "w' = w1"
          by simp_all
        with sc Some Inl show ?thesis by (simp add: loop_post_def)
      next
        case (Inr chunk)
        from sc Some Inr have
          t1: "trace w1 = trace w @ [Awaited ctx, ChunkReceived chunk]"
          and f1: "tokens w1 = tokens w" "draws w1 = draws w"
          by simp_all
        show ?thesis
        proof (cases "i < pages")
          case lt: True
          define ack where "ack = (NewMsg (Subject chunk))\<lparr>Header := copyHeader chunk\<rparr>"
          obtain err w2 where resp: "RespondMsg env chunk ack w1 = (err, w2)"
            by (cases "RespondMsg env chunk ack w1")
          from RespondMsg_run [OF resp] have t2: "trace w2 = trace w1 @ [Responded chunk ack]"
            and f2: "tokens w2 = tokens w1" "draws w2 = draws w1"
            by simp_all
          show ?thesis
          proof (cases err)
            case (Some e)
            with Inr \<open>sel = Some x\<close> True lt sel resp [unfolded ack_def] run
            have res: "r = Some (Inl (errors_Wrap e ''Chunk Reply Error''))" "w' = w2"
              by (simp_all add: Let_def)
            have "trace w' = trace w @ [Awaited ctx, ChunkReceived chunk, Responded chunk ack]"
              using res t1 t2 by simp
            with res f1 f2 show ?thesis by (simp add: loop_post_def)
          next
            case None
            with Inr \<open>sel = Some x\<close> True lt sel resp [unfolded ack_def] run
            have rec: "ChunkRead_loop env ctx pages (i + 1) (msg\<lparr>Data := Data msg @ Data chunk\<rparr>) w2 = (r, w')"
              by (simp add: Let_def)
            from "1.IH"(1) [OF True sel [symmetric] \<open>sel = Some x\<close> Inr refl lt refl
                resp [unfolded ack_def, symmetric] None rec]
            obtain new where n:
              "trace w' = trace w2 @ new" "tokens w' = tokens w2" "draws w' = draws w2"
              "loop_post ctx pages (i + 1) (msg\<lparr>Data := Data msg @ Data chunk\<rparr>) r new"
              by blast
            let ?pre = "[Awaited ctx, ChunkReceived chunk, Responded chunk ack]"
            have a: "trace w' = trace w @ ?pre @ new" using n(1) t1 t2 by simp
            have b: "loop_post ctx pages i msg r (?pre @ new)"
              by (rule loop_post_step [OF n(4)]) (use True in simp_all)
            have e: "tokens w' = tokens w" "draws w' = draws w"
              using n(2,3) f1 f2 by simp_all
            from a b e show ?thesis by blast
          qed
        next
          case ge: False
          with Inr \<open>sel = Some x\<close> True sel run
          have rec: "ChunkRead_loop env ctx pages (i + 1)
                       (msg\<lparr>Data := Data msg @ Data chunk, Reply := Reply chunk\<rparr>) w1 = (r, w')"
            by (simp add: Let_def)
          from "1.IH"(2) [OF True sel [symmetric] \<open>sel = Some x\<close> Inr refl ge rec]
          obtain new where n:
            "trace w' = trace w1 @ new" "tokens w' = tokens w1" "draws w' = draws w1"
            "loop_post ctx pages (i + 1) (msg\<lparr>Data := Data msg @ Data chunk, Reply := Reply chunk\<rparr>) r new"
            by blast
          let ?pre = "[Awaited ctx, ChunkReceived chunk]"
          have a: "trace w' = trace w @ ?pre @ new" using n(1) t1 by simp
          have b: "loop_post ctx pages i msg r (?pre @ new)"
            by (rule loop_post_step [OF n(4)]) (use True in simp_all)
          have e: "tokens w' = tokens w" "draws w' = draws w"
            using n(2,3) f1 by simp_all
          from a b e show ?thesis by blast
        qed
      qed
    qed
  qed
qed


lemma randStringBytesMaskImprSrcSB_frame:
  assumes "randStringBytesMaskImprSrcSB env n w = (r, w')"
  shows "trace w' = trace w \<and> tokens w' = tokens w"
  using assms by (auto simp: randStringBytesMaskImprSrcSB_def split: option.splits)

lemma QueueSubscribeSyncWithChan_run:
  assumes "QueueSubscribeSyncWithChan env s q w = (err, w1)"
  shows "tokens w1 = tokens w \<and> draws w1 = draws w \<and>
     trace w1 = trace w @ (if err = None then [SubscribeCalled s q, Subscribed s q]
                           else [SubscribeCalled s q])"
  using assms
  by (auto simp: QueueSubscribeSyncWithChan_def emit_def Let_def split: option.splits)

lemma ChunkReadRequestMsgWithContext_run:
  assumes "ChunkReadRequestMsgWithContext env ctx msg w = (r, w')"
  shows "\<exists>new. trace w' = trace w @ new \<and> tokens w' = tokens w \<and> read_post ctx msg r new"
proof -
  note run = assms [unfolded ChunkReadRequestMsgWithContext_def]
  define chunked where "chunked = Header_Get (Header msg) msgHeaderChunk"
  show ?thesis
  proof (cases "length (Header_Get (Header msg) msgHeaderID) = 0")
    case True
    with run have "r = Some (Inl (errors_New ''MessageID Not Set''))" "w' = w"
      by simp_all
    then show ?thesis by (simp add: read_post_def)
  next
    case id: False
    show ?thesis
    proof (cases "chunked = []")
      case True
      with id run have "r = Some (Inr msg)" "w' = w"
        by (simp_all add: chunked_def Let_def)
      with True show ?thesis by (simp add: read_post_def chunked_def)
    next
      case ch: False
      show ?thesis
      proof (cases "Atoi chunked")
        case (Inl err)
        with id ch run have "r = Some (Inl (errors_Wrap err ''Couldn't get Chunk Page Count''))" "w' = w"
          by (simp_all add: chunked_def Let_def)
        then show ?thesis by (simp add: read_post_def)
      next
        case (Inr pages)
        obtain ro w1 where rnd: "randStringBytesMaskImprSrcSB env 16 w = (ro, w1)"
          by (cases "randStringBytesMaskImprSrcSB env 16 w")
        from randStringBytesMaskImprSrcSB_frame [OF rnd]
        have f1: "trace w1 = trace w" "tokens w1 = tokens w" by simp_all
        show ?thesis
        proof (cases ro)
          case None
          with id ch Inr rnd run have "r = None" "w' = w1"
            by (simp_all add: chunked_def Let_def)
          with f1 show ?thesis by (simp add: read_post_def)
        next
          case (Some chunktransfer)
          define subj where "subj =
             (case getNRI env msg of
                Some nri \<Rightarrow> ''chunk.'' @ Acc nri @ ''.recieve.'' @ chunktransfer
              | None \<Rightarrow> ''chunk.recieve.'' @ chunktransfer)"
          obtain se w2 where sub: "QueueSubscribeSyncWithChan env subj chunktransfer w1 = (se, w2)"
            by (cases "QueueSubscribeSyncWithChan env subj chunktransfer w1")
          note sr = QueueSubscribeSyncWithChan_run [OF sub]
          show ?thesis
          proof (cases se)
            case (Some err)
            with \<open>ro = Some chunktransfer\<close> id ch Inr rnd sub [unfolded subj_def] run
            have "r = Some (Inl (errors_Wrap err ''Couldn't Subscribe to Chunk Channel''))" "w' = w2"
              by (simp_all add: chunked_def Let_def)
            with sr Some f1 show ?thesis by (simp add: read_post_def)
          next
            case None
            define w3 where "w3 = emit (PendingLimitsSet 1000 (64 * 1024 * 1024)) w2"
            define chunksubmsg where "chunksubmsg = (NewMsg (Reply msg))
                 \<lparr>Header := Header_Add (copyHeader msg) msgHeaderChunkSubject chunktransfer\<rparr>"
            define w4 where "w4 = snd (RespondMsg env msg chunksubmsg w3)"
            obtain lr w5 where lp: "ChunkRead_loop env ctx pages 1 msg w4 = (lr, w5)"
              by (cases "ChunkRead_loop env ctx pages 1 msg w4")
            from ChunkRead_loop_run [OF lp] obtain loop where l:
              "trace w5 = trace w4 @ loop" "tokens w5 = tokens w4"
              "loop_post ctx pages 1 msg lr loop"
              by blast
            have t4: "trace w4 = trace w @ [SubscribeCalled subj chunktransfer,
               Subscribed subj chunktransfer, PendingLimitsSet 1000 67108864,
               Responded msg chunksubmsg]" and f4: "tokens w4 = tokens w"
              using sr None f1
              by (simp_all add: w4_def w3_def RespondMsg_def emit_def Let_def)
            from None \<open>ro = Some chunktransfer\<close> id ch Inr rnd sub [unfolded subj_def] run
            have res: "(case lr of None \<Rightarrow> (None, w5)
                        | Some res \<Rightarrow> (Some res, emit (Unsubscribed subj) (emit ChanClosed w5))) = (r, w')"
              using lp [unfolded w4_def w3_def chunksubmsg_def]
              unfolding subj_def by (simp add: chunked_def Let_def)
            show ?thesis
            proof (cases lr)
              case None
              with res have "r = None" "w' = w5" by simp_all
              with l t4 f4 None Inr show ?thesis
                unfolding read_post_def chunked_def by auto
            next
              case (Some v)
              with res have "r = Some v" "w' = emit (Unsubscribed subj) (emit ChanClosed w5)"
                by simp_all
              with l t4 f4 Some Inr show ?thesis
                unfolding read_post_def chunked_def by (auto simp: emit_def)
            qed
          qed
        qed
      qed
    qed
  qed
qed


section \<open>Evaluating runs in the example environment\<close>

lemma fixture_env_simps:
  "MaxPayload (fixture_env reply sel dec) = 8388608"
  "request_result (fixture_env reply sel dec) h = Inr reply"
  "publish_result (fixture_env reply sel dec) h = None"
  "respond_result (fixture_env reply sel dec) h = None"
  "subscribe_result (fixture_env reply sel dec) h = None"
  "select_result (fixture_env reply sel dec) h = sel"
  "Int63 (fixture_env reply sel dec) k = 0"
  "NewInbox (fixture_env reply sel dec) h = ''_INBOX.1''"
  "Encode (fixture_env reply sel dec) s v = Inr [1, 2, 3]"
  "Decode (fixture_env reply sel dec) s d v = dec v"
  "json_Unmarshal_nriT (fixture_env reply sel dec) js = Inl (External ''json'')"
  "filepath_Base (fixture_env reply sel dec) p = p"
  by (simp_all add: fixture_env_def)

lemmas header_defs = msgHeaderID_def msgHeaderChunk_def msgHeaderChunkSubject_def
  msgHeaderChunkSeq_def msgHeaderOperation_def msgHeaderNRI_def
  Header_Get_def Header_Set_def Header_Add_def make_Header_def copyHeader_def

lemmas bus_defs = emit_def RequestMsgWithContext_def PublishMsg_def RespondMsg_def
  QueueSubscribeSyncWithChan_def select_chunk_def getNRI_def NewMsg_def

lemma fixture_rand16:
  "randStringBytesMaskImprSrcSB (fixture_env reply sel dec) 16 w
     = (Some ''aaaaaaaaaaaaaaaa'', w\<lparr>draws := draws w + 2\<rparr>)"
  by (simp add: randStringBytesMaskImprSrcSB_def randString_loop.simps
      letterIdxMask_def letterIdxBits_def letterIdxMax_def letterBytes_def fixture_env_simps)

lemma Atoi_2: "Atoi ''2'' = Inr 2"
  by (simp add: Atoi_def is_digit_def digit_val_def)

lemma fixture_read_cancelled:
  "ChunkReadRequestMsgWithContext (fixture_env reply DoneFires dec) (Cancellable 0)
     (fixture_msg ''2'' [1, 2, 3]) fixture_world =
   (Some (Inl context_DeadlineExceeded),
    \<lparr>trace =
       [SubscribeCalled ''chunk.recieve.aaaaaaaaaaaaaaaa'' ''aaaaaaaaaaaaaaaa'',
        Subscribed ''chunk.recieve.aaaaaaaaaaaaaaaa'' ''aaaaaaaaaaaaaaaa'',
        PendingLimitsSet 1000 67108864,
        Responded (fixture_msg ''2'' [1, 2, 3])
          ((NewMsg ''_INBOX.2'')\<lparr>Header := Header_Add (copyHeader (fixture_msg ''2'' [1, 2, 3]))
               msgHeaderChunkSubject ''aaaaaaaaaaaaaaaa''\<rparr>),
        Awaited (Cancellable 0), ContextDone (Cancellable 0), ChanClosed,
        Unsubscribed ''chunk.recieve.aaaaaaaaaaaaaaaa''],
     tokens = 5, draws = 2\<rparr>)"
  by (simp add: ChunkReadRequestMsgWithContext_def fixture_msg_def fixture_world_def header_defs
      Atoi_2 fixture_rand16 Let_def bus_defs ChunkRead_loop.simps fixture_env_simps)

section \<open>Cancellation of the reassembly\<close>

lemma loop_post_no_sub:
  "loop_post ctx pages i msg r loop \<Longrightarrow> Subscribed s q \<notin> set loop"
  by (auto simp: loop_post_def list_all_iff)

lemma select_chunk_env:
  assumes "select_chunk env ctx w = (sel, w1)"
  shows "(case select_result env (trace w @ [Awaited ctx]) of
            ChunkArrives chunk \<Rightarrow> sel = Some (Inr chunk)
          | DoneFires \<Rightarrow> sel = (if ctx = Background then None else Some (Inl ()))
          | Neither \<Rightarrow> sel = None)"
  using assms
  by (auto simp: select_chunk_def emit_def Let_def split: selected.splits if_splits)

lemma wait_split2:
  assumes "[Awaited ctx, ChunkReceived chunk] @ new = pre @ Awaited c # post"
  shows "(pre = [] \<and> c = ctx)
     \<or> (\<exists>pre'. pre = [Awaited ctx, ChunkReceived chunk] @ pre' \<and> new = pre' @ Awaited c # post)"
proof (cases pre)
  case Nil
  with assms show ?thesis by simp
next
  case (Cons a p1)
  with assms show ?thesis by (cases p1) auto
qed

lemma wait_split3:
  assumes "[Awaited ctx, ChunkReceived chunk, Responded t m] @ new = pre @ Awaited c # post"
  shows "(pre = [] \<and> c = ctx)
     \<or> (\<exists>pre'. pre = [Awaited ctx, ChunkReceived chunk, Responded t m] @ pre'
            \<and> new = pre' @ Awaited c # post)"
proof (cases pre)
  case Nil
  with assms show ?thesis by simp
next
  case c1: (Cons a p1)
  show ?thesis
  proof (cases p1)
    case Nil
    with c1 assms show ?thesis by simp
  next
    case (Cons b p2)
    with c1 assms show ?thesis by (cases p2) auto
  qed
qed

lemma ChunkRead_loop_done:
  "ChunkRead_loop env ctx pages i msg w = (r, w') \<Longrightarrow> ctx \<noteq> Background \<Longrightarrow>
   trace w' = trace w @ pre @ Awaited c # post \<Longrightarrow>
   select_result env (trace w @ pre @ [Awaited c]) = DoneFires \<Longrightarrow>
   r = Some (Inl context_DeadlineExceeded) \<and> c = ctx \<and> post = [ContextDone ctx]"
proof (induction env ctx pages i msg w arbitrary: r w' pre post rule: ChunkRead_loop.induct)
  case (1 env ctx pages i msg w)
  note run = "1.prems"(1) [unfolded ChunkRead_loop.simps [of env ctx pages i msg w]]
  note nb = "1.prems"(2)
  note tr = "1.prems"(3)
  note fires = "1.prems"(4)
  show ?case
  proof (cases "i \<le> pages")
    case False
    with run have "w' = w" by simp
    with tr show ?thesis by simp
  next
    case True
    obtain sel w1 where sel: "select_chunk env ctx w = (sel, w1)"
      by (cases "select_chunk env ctx w")
    note sc = select_chunk_cases [OF sel]
    note se = select_chunk_env [OF sel]
    show ?thesis
    proof (cases sel)
      case None
      with True sel run have "w' = w1" by simp
      with sc None tr have "pre = []" "c = ctx"
        by (auto simp: Cons_eq_append_conv append_eq_Cons_conv)
      with fires se None nb show ?thesis by simp
    next
      case (Some x)
      show ?thesis
      proof (cases x)
        case (Inl u)
        with Some True sel run have res: "r = Some (Inl context_DeadlineExceeded)" "w' = w1"
          by simp_all
        with sc Some Inl tr have "[Awaited ctx, ContextDone ctx] = pre @ Awaited c # post"
          by simp
        then have "pre = [] \<and> c = ctx \<and> post = [ContextDone ctx]"
          by (cases pre) (auto simp: Cons_eq_append_conv)
        with res show ?thesis by simp
      next
        case (Inr chunk)
        from sc Some Inr have
          t1: "trace w1 = trace w @ [Awaited ctx, ChunkReceived chunk]"
          by simp
        from se Some Inr have first: "select_result env (trace w @ [Awaited ctx]) \<noteq> DoneFires"
          using nb by (auto split: selected.splits)
        show ?thesis
        proof (cases "i < pages")
          case lt: True
          define ack where "ack = (NewMsg (Subject chunk))\<lparr>Header := copyHeader chunk\<rparr>"
          obtain err w2 where resp: "RespondMsg env chunk ack w1 = (err, w2)"
            by (cases "RespondMsg env chunk ack w1")
          from RespondMsg_run [OF resp] have t2: "trace w2 = trace w1 @ [Responded chunk ack]"
            by simp
          show ?thesis
          proof (cases err)
            case (Some e)
            with Inr \<open>sel = Some x\<close> True lt sel resp [unfolded ack_def] run
            have "w' = w2"
              by (simp_all add: Let_def)
            with t1 t2 tr
            have "[Awaited ctx, ChunkReceived chunk, Responded chunk ack] @ [] = pre @ Awaited c # post"
              by simp
            from wait_split3 [OF this] have "pre = []" "c = ctx" by auto
            with fires first show ?thesis by simp
          next
            case None
            with Inr \<open>sel = Some x\<close> True lt sel resp [unfolded ack_def] run
            have rec: "ChunkRead_loop env ctx pages (i + 1) (msg\<lparr>Data := Data msg @ Data chunk\<rparr>) w2 = (r, w')"
              by (simp add: Let_def)
            from ChunkRead_loop_run [OF rec] obtain new where n: "trace w' = trace w2 @ new"
              by blast
            with t1 t2 tr
            have "[Awaited ctx, ChunkReceived chunk, Responded chunk ack] @ new = pre @ Awaited c # post"
              by simp
            from wait_split3 [OF this] fires first obtain pre' where
              p: "pre = [Awaited ctx, ChunkReceived chunk, Responded chunk ack] @ pre'"
                 "new = pre' @ Awaited c # post"
              by auto
            have a: "trace w' = trace w2 @ pre' @ Awaited c # post" using n p by simp
            have b: "select_result env (trace w2 @ pre' @ [Awaited c]) = DoneFires"
              using fires p t1 t2 by simp
            from "1.IH"(1) [OF True sel [symmetric] \<open>sel = Some x\<close> Inr refl lt refl
                resp [unfolded ack_def, symmetric] None rec nb a b]
            show ?thesis .
          qed
        next
          case ge: False
          with Inr \<open>sel = Some x\<close> True sel run
          have rec: "ChunkRead_loop env ctx pages (i + 1)
                       (msg\<lparr>Data := Data msg @ Data chunk, Reply := Reply chunk\<rparr>) w1 = (r, w')"
            by (simp add: Let_def)
          from ChunkRead_loop_run [OF rec] obtain new where n: "trace w' = trace w1 @ new"
            by blast
          with t1 tr
          have "[Awaited ctx, ChunkReceived chunk] @ new = pre @ Awaited c # post"
            by simp
          from wait_split2 [OF this] fires first obtain pre' where
            p: "pre = [Awaited ctx, ChunkReceived chunk] @ pre'" "new = pre' @ Awaited c # post"
            by auto
          have a: "trace w' = trace w1 @ pre' @ Awaited c # post" using n p by simp
          have b: "select_result env (trace w1 @ pre' @ [Awaited c]) = DoneFires"
            using fires p t1 by simp
          from "1.IH"(2) [OF True sel [symmetric] \<open>sel = Some x\<close> Inr refl ge rec nb a b]
          show ?thesis .
        qed
      qed
    qed
  qed
qed

lemma ChunkReadRequestMsgWithContext_loop:
  assumes "ChunkReadRequestMsgWithContext env ctx msg w = (r, w')"
  shows "(trace w' = trace w)
     \<or> (\<exists>s q e. trace w' = trace w @ [SubscribeCalled s q] \<and> r = Some (Inl e))
     \<or> (\<exists>s q sub pages w4 w5.
           trace w4 = trace w @ [SubscribeCalled s q, Subscribed s q,
                                 PendingLimitsSet 1000 67108864, Responded msg sub]
           \<and> ChunkRead_loop env ctx pages 1 msg w4 = (r, w5)
           \<and> trace w' = trace w5 @ (if r = None then [] else [ChanClosed, Unsubscribed s]))"
proof -
  note run = assms [unfolded ChunkReadRequestMsgWithContext_def]
  define chunked where "chunked = Header_Get (Header msg) msgHeaderChunk"
  show ?thesis
  proof (cases "length (Header_Get (Header msg) msgHeaderID) = 0")
    case True
    with run have "w' = w" by simp
    then show ?thesis by simp
  next
    case id: False
    show ?thesis
    proof (cases "chunked = []")
      case True
      with id run have "w' = w"
        by (simp_all add: chunked_def Let_def)
      then show ?thesis by simp
    next
      case ch: False
      show ?thesis
      proof (cases "Atoi chunked")
        case (Inl err)
        with id ch run have "w' = w"
          by (simp_all add: chunked_def Let_def)
        then show ?thesis by simp
      next
        case (Inr pages)
        obtain ro w1 where rnd: "randStringBytesMaskImprSrcSB env 16 w = (ro, w1)"
          by (cases "randStringBytesMaskImprSrcSB env 16 w")
        from randStringBytesMaskImprSrcSB_frame [OF rnd]
        have f1: "trace w1 = trace w" by simp
        show ?thesis
        proof (cases ro)
          case None
          with id ch Inr rnd run have "w' = w1"
            by (simp_all add: chunked_def Let_def)
          with f1 show ?thesis by simp
        next
          case (Some chunktransfer)
          define subj where "subj =
             (case getNRI env msg of
                Some nri \<Rightarrow> ''chunk.'' @ Acc nri @ ''.recieve.'' @ chunktransfer
              | None \<Rightarrow> ''chunk.recieve.'' @ chunktransfer)"
          obtain se w2 where sub: "QueueSubscribeSyncWithChan env subj chunktransfer w1 = (se, w2)"
            by (cases "QueueSubscribeSyncWithChan env subj chunktransfer w1")
          note sr = QueueSubscribeSyncWithChan_run [OF sub]
          show ?thesis
          proof (cases se)
            case (Some err)
            with \<open>ro = Some chunktransfer\<close> id ch Inr rnd sub [unfolded subj_def] run
            have "r = Some (Inl (errors_Wrap err ''Couldn't Subscribe to Chunk Channel''))" "w' = w2"
              by (simp_all add: chunked_def Let_def)
            with sr Some f1 show ?thesis by simp
          next
            case None
            define w3 where "w3 = emit (PendingLimitsSet 1000 (64 * 1024 * 1024)) w2"
            define chunksubmsg where "chunksubmsg = (NewMsg (Reply msg))
                 \<lparr>Header := Header_Add (copyHeader msg) msgHeaderChunkSubject chunktransfer\<rparr>"
            define w4 where "w4 = snd (RespondMsg env msg chunksubmsg w3)"
            obtain lr w5 where lp: "ChunkRead_loop env ctx pages 1 msg w4 = (lr, w5)"
              by (cases "ChunkRead_loop env ctx pages 1 msg w4")
            have t4: "trace w4 = trace w @ [SubscribeCalled subj chunktransfer,
               Subscribed subj chunktransfer, PendingLimitsSet 1000 67108864,
               Responded msg chunksubmsg]"
              using sr None f1
              by (simp_all add: w4_def w3_def RespondMsg_def emit_def Let_def)
            from None \<open>ro = Some chunktransfer\<close> id ch Inr rnd sub [unfolded subj_def] run
            have res: "(case lr of None \<Rightarrow> (None, w5)
                        | Some res \<Rightarrow> (Some res, emit (Unsubscribed subj) (emit ChanClosed w5))) = (r, w')"
              using lp [unfolded w4_def w3_def chunksubmsg_def]
              unfolding subj_def by (simp add: chunked_def Let_def)
            have "r = lr" "trace w' = trace w5 @ (if r = None then [] else [ChanClosed, Unsubscribed subj])"
              using res by (cases lr; simp add: emit_def; fastforce)+
            with t4 lp have "\<exists>s q sub pages w4 w5.
               trace w4 = trace w @ [SubscribeCalled s q, Subscribed s q,
                                 PendingLimitsSet 1000 67108864, Responded msg sub]
               \<and> ChunkRead_loop env ctx pages 1 msg w4 = (r, w5)
               \<and> trace w' = trace w5 @ (if r = None then [] else [ChanClosed, Unsubscribed s])"
              by blast
            then show ?thesis by blast
          qed
        qed
      qed
    qed
  qed
qed

lemma wait_split_head:
  assumes "[SubscribeCalled s q, Subscribed s q, PendingLimitsSet a b, Responded t m] @ new
             = pre @ Awaited c # post"
  shows "\<exists>pre'. pre = [SubscribeCalled s q, Subscribed s q, PendingLimitsSet a b, Responded t m] @ pre'
            \<and> new = pre' @ Awaited c # post"
proof (cases pre)
  case Nil
  with assms show ?thesis by simp
next
  case c1: (Cons x1 p1)
  show ?thesis
  proof (cases p1)
    case Nil
    with c1 assms show ?thesis by simp
  next
    case c2: (Cons x2 p2)
    show ?thesis
    proof (cases p2)
      case Nil
      with c1 c2 assms show ?thesis by simp
    next
      case c3: (Cons x3 p3)
      with c1 c2 assms show ?thesis by (cases p3) auto
    qed
  qed
qed

text \<open>
  C6.  In every run of the reassembly: at every wait for a chunk of the run at which the
  context ends (the \<open>select\<close> of the environment, asked after the trace up to and
  including that wait, meets the end of a context that can end), the function returns
  the deadline-exceeded error, the wait is under the context of the caller, a
  subscription was made before that wait, and what follows the wait is the end of the
  context, the close of the channel and the unsubscribe from the subscribed subject;
  and whenever the function returns after the
  subscription was made, the last actions of the run close the channel and unsubscribe
  from the subscribed subject.
\<close>

theorem C6_reassembly_deadline_unsubscribes:
  assumes "ChunkReadRequestMsgWithContext env ctx msg w = (r, w')"
  shows "\<exists>new. trace w' = trace w @ new
     \<and> (\<forall>pre c post.
           new = pre @ Awaited c # post \<and> ctx \<noteq> Background
           \<and> select_result env (trace w @ pre @ [Awaited c]) = DoneFires \<longrightarrow>
           r = Some (Inl context_DeadlineExceeded) \<and> c = ctx
           \<and> (\<exists>s q. Subscribed s q \<in> set pre
                 \<and> post = [ContextDone ctx, ChanClosed, Unsubscribed s]))
     \<and> (\<forall>s q. Subscribed s q \<in> set new \<and> r \<noteq> None \<longrightarrow>
           (\<exists>pre. new = pre @ [ChanClosed, Unsubscribed s]))"
proof -
  from ChunkReadRequestMsgWithContext_loop [OF assms] consider
    (none) "trace w' = trace w"
    | (failed) s q where "trace w' = trace w @ [SubscribeCalled s q]"
    | (subscribed) s q sub pages w4 w5 where
      "trace w4 = trace w @ [SubscribeCalled s q, Subscribed s q,
                             PendingLimitsSet 1000 67108864, Responded msg sub]"
      "ChunkRead_loop env ctx pages 1 msg w4 = (r, w5)"
      "trace w' = trace w5 @ (if r = None then [] else [ChanClosed, Unsubscribed s])"
    by blast
  then show ?thesis
  proof cases
    case none
    show ?thesis
      by (rule exI [of _ "[]"]) (simp add: none)
  next
    case failed
    show ?thesis
      by (rule exI [of _ "[SubscribeCalled s q]"]) (simp add: failed Cons_eq_append_conv)
  next
    case subscribed
    let ?head = "[SubscribeCalled s q, Subscribed s q, PendingLimitsSet 1000 67108864,
                  Responded msg sub]"
    from ChunkRead_loop_run [OF subscribed(2)] obtain loop where
      l: "trace w5 = trace w4 @ loop" and lp: "loop_post ctx pages 1 msg r loop"
      by blast
    let ?tail = "if r = None then [] else [ChanClosed, Unsubscribed s]"
    let ?new = "?head @ loop @ ?tail"
    have t: "trace w' = trace w @ ?new"
      using subscribed(1,3) l by simp
    from lp have nosub: "\<And>s' q'. Subscribed s' q' \<notin> set loop"
      by (rule loop_post_no_sub)
    from lp have all: "list_all (is_reassembly_action ctx) loop"
      by (simp add: loop_post_def)
    have a: "r = Some (Inl context_DeadlineExceeded) \<and> c = ctx
           \<and> (\<exists>s q. Subscribed s q \<in> set pre
                 \<and> post = [ContextDone ctx, ChanClosed, Unsubscribed s])"
      if dec: "?new = pre @ Awaited c # post" and nb: "ctx \<noteq> Background"
        and fires: "select_result env (trace w @ pre @ [Awaited c]) = DoneFires"
      for pre c post
    proof -
      from dec have "?head @ (loop @ ?tail) = pre @ Awaited c # post" by simp
      from wait_split_head [OF this] obtain pre' where
        p: "pre = ?head @ pre'" "loop @ ?tail = pre' @ Awaited c # post"
        by blast
      have "Awaited c \<notin> set ?tail" by simp
      with p(2) have "\<exists>post'. loop = pre' @ Awaited c # post' \<and> post = post' @ ?tail"
        by (auto simp: append_eq_append_conv2 append_eq_Cons_conv Cons_eq_append_conv
            split: if_splits)
      then obtain post' where q: "loop = pre' @ Awaited c # post'" "post = post' @ ?tail"
        by blast
      have tr5: "trace w5 = trace w4 @ pre' @ Awaited c # post'"
        using l q by simp
      have f4: "select_result env (trace w4 @ pre' @ [Awaited c]) = DoneFires"
        using fires p(1) subscribed(1) by simp
      from ChunkRead_loop_done [OF subscribed(2) nb tr5 f4]
      have res: "r = Some (Inl context_DeadlineExceeded)" "post' = [ContextDone ctx]"
        and cc: "c = ctx"
        by simp_all
      have "Subscribed s q \<in> set pre" using p(1) by simp
      moreover have "post = [ContextDone ctx, ChanClosed, Unsubscribed s]"
        using q(2) res by simp
      ultimately show ?thesis using res(1) cc by blast
    qed
    have b: "\<exists>pre. ?new = pre @ [ChanClosed, Unsubscribed s']"
      if "Subscribed s' q' \<in> set ?new" "r \<noteq> None" for s' q'
    proof -
      from that(1) nosub have "s' = s"
        by (auto split: if_splits)
      with that(2) show ?thesis
        by (intro exI [of _ "?head @ loop"]) simp
    qed
    show ?thesis
    proof (rule exI [of _ ?new], intro conjI allI impI)
      show "trace w' = trace w @ ?new" by (rule t)
    next
      fix pre c post
      assume h: "?new = pre @ Awaited c # post \<and> ctx \<noteq> Background
           \<and> select_result env (trace w @ pre @ [Awaited c]) = DoneFires"
      from a [of pre c post] h show "r = Some (Inl context_DeadlineExceeded)" by blast
      from a [of pre c post] h show "c = ctx" by blast
      from a [of pre c post] h show "\<exists>s q. Subscribed s q \<in> set pre
                 \<and> post = [ContextDone ctx, ChanClosed, Unsubscribed s]" by blast
    next
      fix s' q'
      assume "Subscribed s' q' \<in> set ?new \<and> r \<noteq> None"
      with b [of s' q'] show "\<exists>pre. ?new = pre @ [ChanClosed, Unsubscribed s']" by blast
    qed
  qed
qed

theorem C6_reassembly_deadline_unsubscribes_witness:
  "select_result (fixture_env (fixture_msg [] []) DoneFires Inr)
     (trace fixture_world @
      [SubscribeCalled ''chunk.recieve.aaaaaaaaaaaaaaaa'' ''aaaaaaaaaaaaaaaa'',
       Subscribed ''chunk.recieve.aaaaaaaaaaaaaaaa'' ''aaaaaaaaaaaaaaaa'',
       PendingLimitsSet 1000 67108864,
       Responded (fixture_msg ''2'' [1, 2, 3])
         ((NewMsg ''_INBOX.2'')\<lparr>Header := Header_Add (copyHeader (fixture_msg ''2'' [1, 2, 3]))
              msgHeaderChunkSubject ''aaaaaaaaaaaaaaaa''\<rparr>)] @
      [Awaited (Cancellable 0)]) = DoneFires
   \<and> fst (ChunkReadRequestMsgWithContext (fixture_env (fixture_msg [] []) DoneFires Inr)
          (Cancellable 0) (fixture_msg ''2'' [1, 2, 3]) fixture_world)
     = Some (Inl context_DeadlineExceeded)
   \<and> (\<exists>pre. trace (snd (ChunkReadRequestMsgWithContext
          (fixture_env (fixture_msg [] []) DoneFires Inr)
          (Cancellable 0) (fixture_msg ''2'' [1, 2, 3]) fixture_world))
        = pre @ [Awaited (Cancellable 0), ContextDone (Cancellable 0), ChanClosed,
                 Unsubscribed ''chunk.recieve.aaaaaaaaaaaaaaaa''])"
proof -
  note run = fixture_read_cancelled [of "fixture_msg [] []" Inr]
  let ?head = "[SubscribeCalled ''chunk.recieve.aaaaaaaaaaaaaaaa'' ''aaaaaaaaaaaaaaaa'',
        Subscribed ''chunk.recieve.aaaaaaaaaaaaaaaa'' ''aaaaaaaaaaaaaaaa'',
        PendingLimitsSet 1000 67108864,
        Responded (fixture_msg ''2'' [1, 2, 3])
          ((NewMsg ''_INBOX.2'')\<lparr>Header := Header_Add (copyHeader (fixture_msg ''2'' [1, 2, 3]))
               msgHeaderChunkSubject ''aaaaaaaaaaaaaaaa''\<rparr>)]"
  let ?post = "[ContextDone (Cancellable 0), ChanClosed,
        Unsubscribed ''chunk.recieve.aaaaaaaaaaaaaaaa'']"
  from C6_reassembly_deadline_unsubscribes [OF run] obtain new where
    n: "?head @ Awaited (Cancellable 0) # ?post = new"
    and d: "\<forall>pre c post.
           new = pre @ Awaited c # post \<and> Cancellable 0 \<noteq> Background
           \<and> select_result (fixture_env (fixture_msg [] []) DoneFires Inr)
               (trace fixture_world @ pre @ [Awaited c]) = DoneFires \<longrightarrow>
           Some (Inl context_DeadlineExceeded) = (Some (Inl context_DeadlineExceeded) :: (error + Msg) option)
           \<and> c = Cancellable 0
           \<and> (\<exists>s q. Subscribed s q \<in> set pre
                 \<and> post = [ContextDone (Cancellable 0), ChanClosed, Unsubscribed s])"
    by (auto simp: fixture_world_def)
  have fires: "select_result (fixture_env (fixture_msg [] []) DoneFires Inr)
               (trace fixture_world @ ?head @ [Awaited (Cancellable 0)]) = DoneFires"
    by (simp add: fixture_env_simps)
  from d n [symmetric] fires
  have "\<exists>s q. Subscribed s q \<in> set ?head
          \<and> ?post = [ContextDone (Cancellable 0), ChanClosed, Unsubscribed s]"
    by blast
  with fires show ?thesis
    by (simp add: run)
qed

section \<open>Runs of the two send operations\<close>

lemma requests_simps [simp]:
  "requests [] = []"
  "requests (Requested c m # as) = m # requests as"
  "requests (xs @ ys) = requests xs @ requests ys"
  by (simp_all add: requests_def)

lemma published_simps [simp]:
  "published [] = []"
  "published (Published m # as) = m # published as"
  "published (Requested c m # as) = published as"
  "published (xs @ ys) = published xs @ published ys"
  by (simp_all add: published_def)

lemma requests_read: "list_all (is_read_action ctx) as \<Longrightarrow> requests as = []"
proof (induction as)
  case Nil
  then show ?case by simp
next
  case (Cons a as)
  then show ?case by (cases a) (simp_all add: requests_def)
qed

lemma published_read: "list_all (is_read_action ctx) as \<Longrightarrow> published as = []"
proof (induction as)
  case Nil
  then show ?case by simp
next
  case (Cons a as)
  then show ?case by (cases a) (simp_all add: published_def)
qed


lemma published_map_Requested: "published (map (\<lambda>j. Requested ctx (f j)) js) = []"
  by (induction js) simp_all

lemma is_read_is_send: "is_read_action ctx a \<Longrightarrow> is_send_action ctx a"
  by (cases a) simp_all

lemma list_all_read_send: "list_all (is_read_action ctx) as \<Longrightarrow> list_all (is_send_action ctx) as"
  by (induction as) (simp_all add: is_read_is_send)

lemma acked_read: "list_all (is_read_action ctx) as \<Longrightarrow> acked env t0 as"
proof (induction as arbitrary: t0)
  case Nil
  then show ?case by simp
next
  case (Cons a as)
  then show ?case by (cases a) simp_all
qed

lemma loop_post_read: "loop_post ctx pages i msg r loop \<Longrightarrow> list_all (is_read_action ctx) loop"
  by (simp add: loop_post_def list_all_reassembly_read)

lemma read_post_read:
  assumes "read_post ctx msg r new"
  shows "list_all (is_read_action ctx) new"
proof -
  from assms consider
    (none) "new = []"
    | (failed) s q where "new = [SubscribeCalled s q]"
    | (subscribed) s q sub loop pages where
      "new = [SubscribeCalled s q, Subscribed s q, PendingLimitsSet 1000 67108864,
              Responded msg sub] @ loop @ (if r = None then [] else [ChanClosed, Unsubscribed s])"
      "loop_post ctx pages 1 msg r loop"
    unfolding read_post_def by blast
  then show ?thesis
  proof cases
    case none
    then show ?thesis by simp
  next
    case failed
    then show ?thesis by simp
  next
    case subscribed
    from loop_post_read [OF subscribed(2)] subscribed(1) show ?thesis by simp
  qed
qed

lemma RequestMsgWithContext_run:
  assumes "RequestMsgWithContext env ctx m w = (res, w1)"
  shows "trace w1 = trace w @ [Requested ctx m] \<and> tokens w1 = tokens w \<and> draws w1 = draws w
     \<and> res = request_result env (trace w @ [Requested ctx m])
     \<and> w1 = w\<lparr>trace := trace w @ [Requested ctx m]\<rparr>"
  using assms by (auto simp: RequestMsgWithContext_def emit_def Let_def)


lemma upto_rec_int: "i \<le> j \<Longrightarrow> [i..j] = i # [i + 1..j]"
  by (simp add: upto_rec1)

lemma ChunkSendRequest_loop_run:
  "ChunkSendRequest_loop env ctx msg M pages subj i w = (r, w') \<Longrightarrow>
   send_loop_post env ctx (chunkmsg_of msg M subj) pages i w r w'"
proof (induction env ctx msg M pages subj i w arbitrary: r w' rule: ChunkSendRequest_loop.induct)
  case (1 env ctx msg M pages subj i w)
  note run = "1.prems" [unfolded ChunkSendRequest_loop.simps [of env ctx msg M pages subj i w]]
  let ?chunk = "chunkmsg_of msg M subj"
  show ?case
  proof (cases "i \<le> pages")
    case False
    with run have "r = Some (Inl (errors_New ''Failed''))" "w' = w"
      by simp_all
    then show ?thesis by (simp add: send_loop_post_def)
  next
    case True
    obtain res w1 where req: "RequestMsgWithContext env ctx (?chunk i) w = (res, w1)"
      by (cases "RequestMsgWithContext env ctx (?chunk i) w")
    from RequestMsgWithContext_run [OF req] have
      t1: "trace w1 = trace w @ [Requested ctx (?chunk i)]" and f1: "tokens w1 = tokens w"
      and rr: "res = request_result env (trace w @ [Requested ctx (?chunk i)])"
      and w1: "w1 = w\<lparr>trace := trace w @ [Requested ctx (?chunk i)]\<rparr>"
      by simp_all
    show ?thesis
    proof (cases res)
      case (Inl err)
      with True req run have "r = Some (Inl (errors_Wrap err ''Chunk Send''))" "w' = w1"
        by (simp_all add: Let_def)
      with t1 f1 show ?thesis by (simp add: send_loop_post_def)
    next
      case (Inr reply)
      show ?thesis
      proof (cases "i = pages")
        case last: True
        with Inr True req run have rd: "ChunkReadRequestMsgWithContext env ctx reply w1 = (r, w')"
          by (simp add: Let_def)
        from ChunkReadRequestMsgWithContext_run [OF rd] obtain new where n:
          "trace w' = trace w1 @ new" "tokens w' = tokens w1" "read_post ctx reply r new"
          by blast
        note rn = read_post_read [OF n(3)]
        show ?thesis
          unfolding send_loop_post_def
        proof (intro conjI allI impI)
          show "\<exists>new. trace w' = trace w @ new \<and> tokens w' = tokens w
              \<and> list_all (is_send_action ctx) new \<and> acked env (trace w) new"
            using n(1,2) t1 f1 rn Inr rr
            by (intro exI [of _ "Requested ctx (?chunk i) # new"])
              (simp add: list_all_read_send acked_read)
          show "\<exists>reply.
               request_result env (trace w @ map (\<lambda>j. Requested ctx (?chunk j)) [i..pages]) = Inr reply
               \<and> ChunkReadRequestMsgWithContext env ctx reply
                    (w\<lparr>trace := trace w @ map (\<lambda>j. Requested ctx (?chunk j)) [i..pages]\<rparr>) = (r, w')"
            using rd last Inr rr w1 by (intro exI [of _ reply]) simp
        qed
      next
        case more: False
        with Inr True req run
        have rec: "ChunkSendRequest_loop env ctx msg M pages subj (i + 1) w1 = (r, w')"
          by (simp add: Let_def)
        note IH = "1.IH" [OF True refl req [symmetric] Inr more rec, unfolded send_loop_post_def]
        from IH obtain new where n:
          "trace w' = trace w1 @ new" "tokens w' = tokens w1"
          "list_all (is_send_action ctx) new" "acked env (trace w1) new"
          by blast
        from IH have q: "\<And>m. r = Some (Inr m) \<Longrightarrow>
            \<exists>reply.
               request_result env (trace w1 @ map (\<lambda>j. Requested ctx (?chunk j)) [i + 1..pages]) = Inr reply
               \<and> ChunkReadRequestMsgWithContext env ctx reply
                    (w1\<lparr>trace := trace w1 @ map (\<lambda>j. Requested ctx (?chunk j)) [i + 1..pages]\<rparr>) = (r, w')"
          by blast
        show ?thesis
          unfolding send_loop_post_def
        proof (intro conjI allI impI)
          show "\<exists>new. trace w' = trace w @ new \<and> tokens w' = tokens w
              \<and> list_all (is_send_action ctx) new \<and> acked env (trace w) new"
            using n t1 f1 Inr rr
            by (intro exI [of _ "Requested ctx (?chunk i) # new"]) simp
          fix m assume "r = Some (Inr m)"
          from q [OF this] obtain last where
            l: "request_result env (trace w1 @ map (\<lambda>j. Requested ctx (?chunk j)) [i + 1..pages]) = Inr last"
            "ChunkReadRequestMsgWithContext env ctx last
               (w1\<lparr>trace := trace w1 @ map (\<lambda>j. Requested ctx (?chunk j)) [i + 1..pages]\<rparr>) = (r, w')"
            by blast
          have u: "[i..pages] = i # [i + 1..pages]"
            using True by (rule upto_rec_int)
          from l show "\<exists>reply.
               request_result env (trace w @ map (\<lambda>j. Requested ctx (?chunk j)) [i..pages]) = Inr reply
               \<and> ChunkReadRequestMsgWithContext env ctx reply
                    (w\<lparr>trace := trace w @ map (\<lambda>j. Requested ctx (?chunk j)) [i..pages]\<rparr>) = (r, w')"
            unfolding u w1 by (intro exI [of _ last]) simp
        qed
      qed
    qed
  qed
qed


lemma maxchunksize_of_eq: "maxchunksize_of mp = 972800"
  by (simp add: maxchunksize_of_def pinned_chunksize_def Let_def)

lemma ChunkSendRequestMsgWithContext_short:
  assumes "Header_Get (Header msg) msgHeaderID \<noteq> []"
    and "int (length (Data msg)) < 972800"
  shows "ChunkSendRequestMsgWithContext env ctx msg w =
     (case request_result env (trace w @ [Requested ctx msg]) of
        Inl err \<Rightarrow> (Some (Inl (errors_Wrap err ''Short Message Send Failure'')), emit (Requested ctx msg) w)
      | Inr reply \<Rightarrow> ChunkReadRequestMsgWithContext env ctx reply (emit (Requested ctx msg) w))"
  using assms
  by (simp add: ChunkSendRequestMsgWithContext_def maxchunksize_of_eq Let_def
      RequestMsgWithContext_def emit_def split: sum.splits)

lemma ChunkSendRequestMsgWithContext_frame:
  assumes "ChunkSendRequestMsgWithContext env ctx msg w = (r, w')"
  shows "\<exists>new. trace w' = trace w @ new \<and> tokens w' = tokens w
     \<and> list_all (is_send_action ctx) new \<and> acked env (trace w) new"
proof -
  note run = assms [unfolded ChunkSendRequestMsgWithContext_def maxchunksize_of_eq]
  show ?thesis
  proof (cases "length (Header_Get (Header msg) msgHeaderID) = 0")
    case True
    with run have "r = Some (Inl (errors_New ''MessageID Not Set''))" "w' = w"
      by simp_all
    then show ?thesis by simp
  next
    case id: False
    show ?thesis
    proof (cases "int (length (Data msg)) < 972800")
      case small: True
      obtain res w1 where req: "RequestMsgWithContext env ctx msg w = (res, w1)"
        by (cases "RequestMsgWithContext env ctx msg w")
      from RequestMsgWithContext_run [OF req] have
        t1: "trace w1 = trace w @ [Requested ctx msg]" and f1: "tokens w1 = tokens w"
        and rr: "res = request_result env (trace w @ [Requested ctx msg])"
        by simp_all
      show ?thesis
      proof (cases res)
        case (Inl err)
        with id small req run
        have "r = Some (Inl (errors_Wrap err ''Short Message Send Failure''))" "w' = w1"
          by (simp_all add: Let_def)
        with t1 f1 show ?thesis by simp
      next
        case (Inr reply)
        with id small req run have rd: "ChunkReadRequestMsgWithContext env ctx reply w1 = (r, w')"
          by (simp add: Let_def)
        from ChunkReadRequestMsgWithContext_run [OF rd] obtain new where n:
          "trace w' = trace w1 @ new" "tokens w' = tokens w1" "read_post ctx reply r new"
          by blast
        note rn = read_post_read [OF n(3)]
        show ?thesis
          using n(1,2) t1 f1 rn Inr rr
          by (intro exI [of _ "Requested ctx msg # new"])
            (simp add: list_all_read_send acked_read)
      qed
    next
      case big: False
      define pages where "pages = int (length (Data msg)) div 972800"
      define initialchunk where "initialchunk = initialchunk_of msg 972800 pages"
      obtain res w1 where req: "RequestMsgWithContext env ctx initialchunk w = (res, w1)"
        by (cases "RequestMsgWithContext env ctx initialchunk w")
      from RequestMsgWithContext_run [OF req] have
        t1: "trace w1 = trace w @ [Requested ctx initialchunk]" and f1: "tokens w1 = tokens w"
        and rr: "res = request_result env (trace w @ [Requested ctx initialchunk])"
        by simp_all
      show ?thesis
      proof (cases res)
        case (Inl err)
        with id big req [unfolded initialchunk_def pages_def] run
        have "r = Some (Inl (errors_Wrap err ''chunkRequestMsgWithContext''))" "w' = w1"
          by (simp_all add: Let_def)
        with t1 f1 show ?thesis by simp
      next
        case (Inr chunkchannelmsg)
        define chunkid where "chunkid = Header_Get (Header chunkchannelmsg) msgHeaderChunkSubject"
        show ?thesis
        proof (cases "chunkid = []")
          case True
          with Inr id big req [unfolded initialchunk_def pages_def] run
          have "r = Some (Inl (errors_New ''Chunked Reply Response didn't include ChunkID''))" "w' = w1"
            by (simp_all add: Let_def chunkid_def)
          with t1 f1 show ?thesis by simp
        next
          case False
          define subj where "subj = chunksubject_of env chunkchannelmsg chunkid"
          from False Inr id big req [unfolded initialchunk_def pages_def] run
          have lp: "ChunkSendRequest_loop env ctx msg 972800 pages subj 1 w1 = (r, w')"
            unfolding subj_def chunksubject_of_def pages_def chunkid_def
            by (simp add: Let_def)
          from ChunkSendRequest_loop_run [OF lp, unfolded send_loop_post_def] obtain new where n:
            "trace w' = trace w1 @ new" "tokens w' = tokens w1"
            "list_all (is_send_action ctx) new" "acked env (trace w1) new"
            by blast
          show ?thesis
            using n t1 f1 Inr rr
            by (intro exI [of _ "Requested ctx initialchunk # new"]) simp
        qed
      qed
    qed
  qed
qed


lemma RespondMsg_eq:
  "RespondMsg env to m w = (respond_result env (trace w @ [Responded to m]), emit (Responded to m) w)"
  by (simp add: RespondMsg_def emit_def Let_def)



lemma fixture_msg_simps:
  "Data (fixture_msg chunks payload) = payload"
  "Subject (fixture_msg chunks payload) = ''_INBOX.1''"
  "Reply (fixture_msg chunks payload) = ''_INBOX.2''"
  "Header_Get (Header (fixture_msg chunks payload)) msgHeaderID = ''abcdefghijklmnop''"
  "Header_Get (Header (fixture_msg chunks payload)) msgHeaderChunk = chunks"
  "Header_Get (Header (fixture_msg chunks payload)) msgHeaderNRI = []"
  by (simp_all add: fixture_msg_def header_defs)

lemma fixture_ack_simps:
  "Header_Get (Header fixture_ack) msgHeaderID = ''abcdefghijklmnop''"
  "Header_Get (Header fixture_ack) msgHeaderChunk = []"
  "Header_Get (Header fixture_ack) msgHeaderChunkSubject = ''T1''"
  "Header_Get (Header fixture_ack) msgHeaderNRI = []"
  by (simp_all add: fixture_ack_def header_defs)



lemma fixture_send_short:
  "ChunkSendRequestMsgWithContext (fixture_env fixture_ack sel dec) ctx
     (fixture_msg [] [1, 2, 3]) fixture_world =
   (Some (Inr fixture_ack),
    \<lparr>trace = [Requested ctx (fixture_msg [] [1, 2, 3])], tokens = 5, draws = 0\<rparr>)"
  by (simp add: ChunkSendRequestMsgWithContext_def maxchunksize_of_eq fixture_msg_simps
      Let_def RequestMsgWithContext_def emit_def fixture_env_simps
      fixture_ack_simps ChunkReadRequestMsgWithContext_def fixture_world_def)







lemma since_append: "trace w' = trace w @ new \<Longrightarrow> since w w' = new"
  by (simp add: since_def)




section \<open>Chunking and reassembly\<close>


section \<open>The single-shot path\<close>

text \<open>
  C4.  For a message with an identifier and a payload shorter than maxchunksize,
  \<open>send_request\<close> sends exactly one request, the message itself on its own subject,
  under the caller's context.  When that request fails the wrapped error is returned;
  otherwise the result is that of the reassembly (\<open>read_reply\<close>) applied to the reply.
  Everything the run adds to the trace after the one request is an action of the
  reassembly (no further request, nothing published), so the send path itself never
  subscribes; and when the reply carries no chunk count, nothing is added at all.
\<close>

theorem C4_short_request_single_shot:
  assumes id: "Header_Get (Header msg) msgHeaderID \<noteq> []"
    and small: "int (length (Data msg)) < maxchunksize_of (MaxPayload env)"
  shows "ChunkSendRequestMsgWithContext env ctx msg w =
     (case request_result env (trace w @ [Requested ctx msg]) of
        Inl err \<Rightarrow> (Some (Inl (errors_Wrap err ''Short Message Send Failure'')),
                    w\<lparr>trace := trace w @ [Requested ctx msg]\<rparr>)
      | Inr reply \<Rightarrow> ChunkReadRequestMsgWithContext env ctx reply
                      (w\<lparr>trace := trace w @ [Requested ctx msg]\<rparr>))
   \<and> (\<exists>new. since w (snd (ChunkSendRequestMsgWithContext env ctx msg w)) = Requested ctx msg # new
          \<and> list_all (is_read_action ctx) new \<and> requests new = [] \<and> published new = []
          \<and> (\<forall>reply. request_result env (trace w @ [Requested ctx msg]) = Inr reply
                \<and> Header_Get (Header reply) msgHeaderChunk = [] \<longrightarrow> new = []))"
proof -
  from small have small': "int (length (Data msg)) < 972800"
    by (simp add: maxchunksize_of_eq)
  let ?w1 = "w\<lparr>trace := trace w @ [Requested ctx msg]\<rparr>"
  have eq: "ChunkSendRequestMsgWithContext env ctx msg w =
     (case request_result env (trace w @ [Requested ctx msg]) of
        Inl err \<Rightarrow> (Some (Inl (errors_Wrap err ''Short Message Send Failure'')), ?w1)
      | Inr reply \<Rightarrow> ChunkReadRequestMsgWithContext env ctx reply ?w1)"
    using ChunkSendRequestMsgWithContext_short [OF id small', of env ctx w, unfolded emit_def]
    by simp
  have "\<exists>new. since w (snd (ChunkSendRequestMsgWithContext env ctx msg w)) = Requested ctx msg # new
          \<and> list_all (is_read_action ctx) new \<and> requests new = [] \<and> published new = []
          \<and> (\<forall>reply. request_result env (trace w @ [Requested ctx msg]) = Inr reply
                \<and> Header_Get (Header reply) msgHeaderChunk = [] \<longrightarrow> new = [])"
  proof (cases "request_result env (trace w @ [Requested ctx msg])")
    case (Inl err)
    with eq have "since w (snd (ChunkSendRequestMsgWithContext env ctx msg w)) = [Requested ctx msg]"
      by (simp add: since_def)
    with Inl show ?thesis by simp
  next
    case (Inr reply)
    obtain r w' where rd: "ChunkReadRequestMsgWithContext env ctx reply ?w1 = (r, w')"
      by (cases "ChunkReadRequestMsgWithContext env ctx reply ?w1")
    from ChunkReadRequestMsgWithContext_run [OF rd] obtain new where
      t: "trace w' = trace w @ Requested ctx msg # new" and rp: "read_post ctx reply r new"
      by auto
    note ra = read_post_read [OF rp]
    have s: "since w (snd (ChunkSendRequestMsgWithContext env ctx msg w)) = Requested ctx msg # new"
      using eq Inr rd since_append [OF t] by simp
    have plain: "new = []" if "Header_Get (Header reply) msgHeaderChunk = []"
    proof -
      from rd that have "w' = ?w1"
        by (auto simp: ChunkReadRequestMsgWithContext_def Let_def split: if_splits)
      with t show ?thesis by simp
    qed
    from s ra plain Inr show ?thesis
      by (intro exI [of _ new]) (simp add: requests_read [OF ra] published_read [OF ra])
  qed
  with eq show ?thesis by blast
qed

theorem C4_short_request_single_shot_witness:
  "Header_Get (Header (fixture_msg [] [1, 2, 3])) msgHeaderID \<noteq> []
   \<and> int (length (Data (fixture_msg [] [1, 2, 3]))) < maxchunksize_of (MaxPayload (fixture_env fixture_ack Neither Inr))
   \<and> ChunkSendRequestMsgWithContext (fixture_env fixture_ack Neither Inr) Background
        (fixture_msg [] [1, 2, 3]) fixture_world
      = (Some (Inr fixture_ack),
         fixture_world\<lparr>trace := [Requested Background (fixture_msg [] [1, 2, 3])]\<rparr>)
   \<and> since fixture_world (snd (ChunkSendRequestMsgWithContext (fixture_env fixture_ack Neither Inr)
        Background (fixture_msg [] [1, 2, 3]) fixture_world))
      = [Requested Background (fixture_msg [] [1, 2, 3])]"
proof -
  have id: "Header_Get (Header (fixture_msg [] [1, 2, 3])) msgHeaderID \<noteq> []"
    by (simp add: fixture_msg_simps)
  have small: "int (length (Data (fixture_msg [] [1, 2, 3])))
      < maxchunksize_of (MaxPayload (fixture_env fixture_ack Neither Inr))"
    by (simp add: fixture_msg_simps maxchunksize_of_eq)
  from C4_short_request_single_shot [OF id small, of Background fixture_world]
  show ?thesis
    using id small
    by (simp add: fixture_env_simps fixture_world_def fixture_ack_simps since_def
        ChunkReadRequestMsgWithContext_def)
qed

section \<open>Which chunks are requested and which are published\<close>










section \<open>The typed dispatch and the semaphore\<close>

lemmas command_defs = NatsOpenCmd_def NatsStatCmd_def NatsMkdirCmd_def NatsSaveCmd_def
  NatsListCmd_def NatsLoadCmd_def NatsRemoveCmd_def

lemma NewRNSMsg_frame:
  assumes "NewRNSMsg env subject w = (r, w')"
  shows "trace w' = trace w \<and> tokens w' = tokens w"
  using assms randStringBytesMaskImprSrcSB_frame[of env 16 w]
  by (auto simp: NewRNSMsg_def Let_def split: prod.splits option.splits)

lemma SendMsgWithReply_body_frame:
  assumes "SendMsgWithReply_body env ctx op send recv w = (r, w')"
  shows "\<exists>new. trace w' = trace w @ new \<and> tokens w' = tokens w \<and> list_all (is_send_action ctx) new"
proof (cases "check_schema op send recv")
  case (Inl err)
  with assms show ?thesis by (simp add: SendMsgWithReply_body_def)
next
  case (Inr operation)
  obtain r0 w1 where new: "NewRNSMsg env (''repo.commands.'' @ operation) w = (r0, w1)"
    by (cases "NewRNSMsg env (''repo.commands.'' @ operation) w")
  note fr = NewRNSMsg_frame[OF new]
  show ?thesis
  proof (cases r0)
    case None
    with assms Inr new fr show ?thesis by (simp add: SendMsgWithReply_body_def)
  next
    case (Some msg0)
    show ?thesis
    proof (cases "Encode env (''repo.commands.'' @ operation) send")
      case (Inl err)
      with assms Inr new Some fr show ?thesis by (simp add: SendMsgWithReply_body_def Let_def)
    next
      case (Inr data)
      define msg where "msg = msg0\<lparr>Header := Header_Set (Header msg0) ''X-RNS-OP'' operation,
        Data := data, Reply := NewInbox env (trace w1)\<rparr>"
      obtain r2 w2 where snd: "ChunkSendRequestMsgWithContext env ctx msg w1 = (r2, w2)"
        by (cases "ChunkSendRequestMsgWithContext env ctx msg w1")
      from ChunkSendRequestMsgWithContext_frame[OF snd] obtain new2 where
        n2: "trace w2 = trace w1 @ new2" "tokens w2 = tokens w1" "list_all (is_send_action ctx) new2"
        by blast
      from assms \<open>check_schema op send recv = Inr operation\<close> new Some Inr snd
      have "w' = w2"
        unfolding SendMsgWithReply_body_def msg_def
        by (auto simp: Let_def split: option.splits sum.splits)
      with n2 fr show ?thesis by simp
    qed
  qed
qed

lemma is_send_not_token: "is_send_action ctx a \<Longrightarrow> \<not> is_token_action a"
  by (cases a) simp_all

lemma list_all_send_not_token:
  "list_all (is_send_action ctx) new \<Longrightarrow> list_all (\<lambda>a. \<not> is_token_action a) new"
  by (auto simp: list_all_iff dest: is_send_not_token)

lemma SendMsgWithReply_body_blocked:
  assumes "SendMsgWithReply_body env ctx op send recv w0 = (None, w1)"
  shows "\<exists>operation. check_schema op send recv = Inr operation
     \<and> (fst (NewRNSMsg env (''repo.commands.'' @ operation) w0) = None
        \<or> (\<exists>msg w data. Encode env (''repo.commands.'' @ operation) send = Inr data
              \<and> Data msg = data
              \<and> fst (ChunkSendRequestMsgWithContext env ctx msg w) = None))"
proof (cases "check_schema op send recv")
  case (Inl err)
  with assms show ?thesis by (simp add: SendMsgWithReply_body_def)
next
  case (Inr operation)
  obtain r0 w2 where new: "NewRNSMsg env (''repo.commands.'' @ operation) w0 = (r0, w2)"
    by (cases "NewRNSMsg env (''repo.commands.'' @ operation) w0")
  show ?thesis
  proof (cases r0)
    case None
    with Inr new show ?thesis by simp
  next
    case (Some msg0)
    show ?thesis
    proof (cases "Encode env (''repo.commands.'' @ operation) send")
      case (Inl err)
      with assms Inr new Some show ?thesis by (simp add: SendMsgWithReply_body_def Let_def)
    next
      case enc: (Inr data)
      define msg where "msg = msg0\<lparr>Header := Header_Set (Header msg0) ''X-RNS-OP'' operation,
        Data := data, Reply := NewInbox env (trace w2)\<rparr>"
      from assms Inr new Some enc
      have "fst (ChunkSendRequestMsgWithContext env ctx msg w2) = None"
        unfolding SendMsgWithReply_body_def msg_def
        by (auto simp: Let_def split: option.splits sum.splits prod.splits)
      moreover have "Data msg = data" by (simp add: msg_def)
      ultimately show ?thesis using Inr enc by blast
    qed
  qed
qed

lemma SendMsgWithReply_frame:
  assumes "SendMsgWithReply env ctx op send recv w = (r, w')"
  shows "\<exists>new. trace w' = trace w @ new
     \<and> list_all (\<lambda>a. is_token_action a \<or> is_send_action ctx a) new"
proof (cases "tokens w = 0")
  case True
  with assms show ?thesis by (simp add: SendMsgWithReply_def GetToken_def)
next
  case False
  define w0 where "w0 = emit TokenAcquired (w\<lparr>tokens := tokens w - 1\<rparr>)"
  obtain r1 w1 where body: "SendMsgWithReply_body env ctx op send recv w0 = (r1, w1)"
    by (cases "SendMsgWithReply_body env ctx op send recv w0")
  from SendMsgWithReply_body_frame [OF body] obtain mid where
    mid: "trace w1 = trace w0 @ mid" "list_all (is_send_action ctx) mid"
    by blast
  have m: "list_all (\<lambda>a. is_token_action a \<or> is_send_action ctx a) mid"
    using mid(2) by (simp add: list_all_iff)
  have t0: "trace w0 = trace w @ [TokenAcquired]"
    by (simp add: w0_def emit_def)
  show ?thesis
  proof (cases r1)
    case None
    with assms False body have "w' = w1"
      by (simp add: SendMsgWithReply_def GetToken_def w0_def)
    with mid(1) t0 m show ?thesis by simp
  next
    case (Some res)
    with assms False body have "w' = ReleaseToken w1"
      by (simp add: SendMsgWithReply_def GetToken_def w0_def)
    with mid(1) t0 m show ?thesis by (simp add: ReleaseToken_def emit_def)
  qed
qed

lemma SendMsgWithReply_requests:
  assumes "SendMsgWithReply env ctx op send recv w = (r, w')"
    and "Requested c m \<in> set (since w w')"
  shows "c = ctx"
proof -
  from SendMsgWithReply_frame [OF assms(1)] obtain new where
    n: "trace w' = trace w @ new" "list_all (\<lambda>a. is_token_action a \<or> is_send_action ctx a) new"
    by blast
  from n(1) have "since w w' = new" by (rule since_append)
  with assms(2) n(2) have "is_token_action (Requested c m) \<or> is_send_action ctx (Requested c m)"
    by (auto simp: list_all_iff)
  then show ?thesis by simp
qed

lemma since_same: "since w w = []"
  by (simp add: since_def)

lemma fixture_NewRNSMsg:
  "NewRNSMsg (fixture_env reply sel dec) subject w =
     (Some ((NewMsg subject)\<lparr>Header := Header_Set make_Header msgHeaderID ''aaaaaaaaaaaaaaaa''\<rparr>),
      w\<lparr>draws := draws w + 2\<rparr>)"
  by (simp add: NewRNSMsg_def fixture_rand16 NewMsg_def)

lemma fixture_request_eq:
  "(NewMsg (''repo.commands.'' @ operation))
     \<lparr>Header := Header_Set (Header_Set make_Header msgHeaderID ''aaaaaaaaaaaaaaaa'') ''X-RNS-OP'' operation,
      Data := [1, 2, 3], Reply := ''_INBOX.1''\<rparr> = fixture_request operation"
  by (simp add: fixture_request_def NewMsg_def)

lemma fixture_request_simps:
  "Header_Get (Header (fixture_request operation)) msgHeaderID = ''aaaaaaaaaaaaaaaa''"
  "Data (fixture_request operation) = [1, 2, 3]"
  by (simp_all add: fixture_request_def header_defs)

lemma fixture_roundtrip:
  "ChunkSendRequestMsgWithContext (fixture_env (fixture_msg [] [9]) sel dec) ctx
     (fixture_request operation) w =
   (Some (Inr (fixture_msg [] [9])), w\<lparr>trace := trace w @ [Requested ctx (fixture_request operation)]\<rparr>)"
proof -
  have a: "Header_Get (Header (fixture_request operation)) msgHeaderID \<noteq> []"
    by (simp add: fixture_request_simps)
  have b: "int (length (Data (fixture_request operation))) < 972800"
    by (simp add: fixture_request_simps)
  show ?thesis
    unfolding ChunkSendRequestMsgWithContext_short [OF a b]
    by (simp add: fixture_env_simps ChunkReadRequestMsgWithContext_def fixture_msg_simps emit_def)
qed

lemma fixture_dispatch_stat:
  "SendMsgWithReply (fixture_env (fixture_msg [] [9]) sel (fixture_decode_stat ok)) ctx
     NatsStatCmd (V_StatOp op) (P_StatResult z) fixture_world =
   (Some (Inr (P_StatResult \<lparr>StatResult_Ok = ok, StatResult_Size = 42, StatResult_Name = ''config''\<rparr>)),
    \<lparr>trace = [TokenAcquired, Requested ctx (fixture_request ''stat''), TokenReleased],
     tokens = 5, draws = 2\<rparr>)"
  by (simp add: SendMsgWithReply_def GetToken_def ReleaseToken_def SendMsgWithReply_body_def
      check_schema_def command_defs fixture_NewRNSMsg fixture_env_simps
      fixture_request_eq [of "''stat''", simplified] Let_def
      fixture_roundtrip fixture_decode_stat_def fixture_world_def emit_def)

lemma fixture_backend_simps:
  "Repo (cfg fixture_backend) = ''repo''"
  "Filename (layout fixture_backend) fixture_handle = ''/config''"
  "Handle_Name fixture_handle = ''config''"
  by (simp_all add: fixture_backend_def fixture_handle_def NewConfig_def)

lemma fixture_Stat:
  "Stat fixture_backend (fixture_env (fixture_msg [] [9]) sel (fixture_decode_stat ok)) ctx
     fixture_handle fixture_world =
   (Some (if ok then Inr \<lparr>restic_Size = 42, restic_Name = ''config''\<rparr>
          else Inl (errors_New ''File does not exist'')),
    \<lparr>trace = [TokenAcquired, Requested Background (fixture_request ''stat''), TokenReleased],
     tokens = 5, draws = 2\<rparr>)"
  by (simp add: Stat_def fixture_dispatch_stat stored_StatResult_def fixture_backend_simps)


text \<open>
  C5.  Every call of \<open>SendMsgWithReply\<close> that returns, with a result or with any error,
  has acquired one token as its first action and released it as its last action, with no
  other action of the semaphore in between, and leaves the number of free tokens as it
  found it.  A call that does not return has acquired at most one token; and a call fails
  to return only when no token is free, when the random source never gives an identifier,
  or when the send on the bus itself never returns: a schema mismatch, an encode failure,
  a transport failure and a decode failure are all returns.
\<close>

theorem C5_token_acquired_and_released:
  assumes "SendMsgWithReply env ctx op send recv w = (r, w')"
  shows "(case r of
            Some res \<Rightarrow>
              (\<exists>mid. since w w' = TokenAcquired # mid @ [TokenReleased]
                 \<and> list_all (\<lambda>a. \<not> is_token_action a) mid)
              \<and> tokens w' = tokens w
          | None \<Rightarrow>
              (since w w' = []
               \<or> (\<exists>mid. since w w' = TokenAcquired # mid
                     \<and> list_all (\<lambda>a. \<not> is_token_action a) mid))
              \<and> (tokens w = 0
                 \<or> (\<exists>operation. check_schema op send recv = Inr operation
                      \<and> (fst (NewRNSMsg env (''repo.commands.'' @ operation)
                                (emit TokenAcquired (w\<lparr>tokens := tokens w - 1\<rparr>))) = None
                         \<or> (\<exists>msg w1 data.
                               Encode env (''repo.commands.'' @ operation) send = Inr data
                               \<and> Data msg = data
                               \<and> fst (ChunkSendRequestMsgWithContext env ctx msg w1) = None)))))"
proof (cases "tokens w = 0")
  case True
  with assms show ?thesis by (simp add: SendMsgWithReply_def GetToken_def since_def)
next
  case False
  define w0 where "w0 = emit TokenAcquired (w\<lparr>tokens := tokens w - 1\<rparr>)"
  obtain r1 w1 where body: "SendMsgWithReply_body env ctx op send recv w0 = (r1, w1)"
    by (cases "SendMsgWithReply_body env ctx op send recv w0")
  from SendMsgWithReply_body_frame[OF body] obtain mid where
    mid: "trace w1 = trace w0 @ mid" "tokens w1 = tokens w0" "list_all (is_send_action ctx) mid"
    by blast
  have nt: "list_all (\<lambda>a. \<not> is_token_action a) mid"
    using mid(3) by (rule list_all_send_not_token)
  have t0: "trace w0 = trace w @ [TokenAcquired]" "tokens w0 = tokens w - 1"
    by (simp_all add: w0_def emit_def)
  show ?thesis
  proof (cases r1)
    case None
    with assms False body have res: "r = None" "w' = w1"
      by (simp_all add: SendMsgWithReply_def GetToken_def w0_def)
    from body None have "SendMsgWithReply_body env ctx op send recv w0 = (None, w1)" by simp
    note bl = SendMsgWithReply_body_blocked [OF this, unfolded w0_def]
    have "\<exists>mid. since w w' = TokenAcquired # mid \<and> list_all (\<lambda>a. \<not> is_token_action a) mid"
      using res mid t0 nt by (simp add: since_def)
    with bl res show ?thesis by simp
  next
    case (Some res)
    with assms False body have "r = Some res" "w' = ReleaseToken w1"
      by (simp_all add: SendMsgWithReply_def GetToken_def w0_def)
    with mid t0 nt False show ?thesis by (simp add: since_def ReleaseToken_def emit_def)
  qed
qed

theorem C5_token_acquired_and_released_witness:
  "SendMsgWithReply (fixture_env (fixture_msg [] [9]) Neither (fixture_decode_stat True))
     Background NatsStatCmd
     (V_StatOp \<lparr>StatOp_Bucket = ''repo'', StatOp_Filename = ''/config''\<rparr>)
     (P_StatResult \<lparr>StatResult_Ok = False, StatResult_Size = 0, StatResult_Name = []\<rparr>)
     fixture_world =
   (Some (Inr (P_StatResult \<lparr>StatResult_Ok = True, StatResult_Size = 42, StatResult_Name = ''config''\<rparr>)),
    \<lparr>trace = [TokenAcquired, Requested Background (fixture_request ''stat''), TokenReleased],
     tokens = 5, draws = 2\<rparr>)
   \<and> (\<exists>mid. since fixture_world
          \<lparr>trace = [TokenAcquired, Requested Background (fixture_request ''stat''), TokenReleased],
           tokens = 5, draws = 2\<rparr> = TokenAcquired # mid @ [TokenReleased]
        \<and> list_all (\<lambda>a. \<not> is_token_action a) mid)
   \<and> tokens \<lparr>trace = [TokenAcquired, Requested Background (fixture_request ''stat''), TokenReleased],
           tokens = 5, draws = 2\<rparr> = tokens fixture_world"
  using C5_token_acquired_and_released [OF fixture_dispatch_stat
      [of Neither True Background "\<lparr>StatOp_Bucket = ''repo'', StatOp_Filename = ''/config''\<rparr>"
          "\<lparr>StatResult_Ok = False, StatResult_Size = 0, StatResult_Name = []\<rparr>"]]
  by (simp add: fixture_dispatch_stat)


section \<open>A request or a reply slot of the wrong type\<close>

text \<open>
  C7.  For each of the seven command tags: when the request value is not of the request
  type of the tag, or the reply slot is not a pointer to the reply type of the tag, the
  dispatch, once it holds a token, returns the error of the failed type assertion (the
  format names the mismatch, the argument is the type of the offending value), and all
  that it has added to the trace is the acquisition and the release of the token: nothing
  is sent on the bus.  With no free token the call waits, and nothing is sent either.
\<close>

theorem C7_schema_mismatch_without_bus:
  assumes "tag \<in> set command_tags"
    and "\<not> request_schema tag send \<or> \<not> reply_schema tag recv"
  shows "(0 < tokens w \<longrightarrow>
            (\<exists>fmt. SendMsgWithReply env ctx tag send recv w =
                (Some (Inl (errors_Errorf fmt
                   [ArgType (type_name (if \<not> request_schema tag send then send else recv))])),
                 w\<lparr>trace := trace w @ [TokenAcquired, TokenReleased]\<rparr>)
              \<and> prefix (if \<not> request_schema tag send
                         then ''Struct Supplied to SendMsgWithReply is not a ''
                         else ''Recv Struct supplied to SendMsgWithReply is not a '') fmt))
         \<and> (tokens w = 0 \<longrightarrow> SendMsgWithReply env ctx tag send recv w = (None, w))"
proof (intro conjI impI)
  assume "tokens w = 0"
  then show "SendMsgWithReply env ctx tag send recv w = (None, w)"
    by (simp add: SendMsgWithReply_def GetToken_def)
next
  assume tok: "0 < tokens w"
  have w: "w\<lparr>trace := trace w @ [TokenAcquired, TokenReleased], tokens := Suc (tokens w - Suc 0)\<rparr>
           = w\<lparr>trace := trace w @ [TokenAcquired, TokenReleased]\<rparr>"
    using tok by simp
  from assms(1) consider "tag = NatsOpenCmd" | "tag = NatsStatCmd" | "tag = NatsMkdirCmd"
    | "tag = NatsSaveCmd" | "tag = NatsListCmd" | "tag = NatsLoadCmd" | "tag = NatsRemoveCmd"
    by (auto simp: command_tags_def)
  then show "\<exists>fmt. SendMsgWithReply env ctx tag send recv w =
                (Some (Inl (errors_Errorf fmt
                   [ArgType (type_name (if \<not> request_schema tag send then send else recv))])),
                 w\<lparr>trace := trace w @ [TokenAcquired, TokenReleased]\<rparr>)
              \<and> prefix (if \<not> request_schema tag send
                         then ''Struct Supplied to SendMsgWithReply is not a ''
                         else ''Recv Struct supplied to SendMsgWithReply is not a '') fmt"
    using assms(2) tok
    by cases
      (auto simp: SendMsgWithReply_def GetToken_def ReleaseToken_def emit_def
         SendMsgWithReply_body_def check_schema_def request_schema_def reply_schema_def
         command_defs prefix_def)
qed

theorem C7_schema_mismatch_without_bus_witness:
  "NatsStatCmd \<in> set command_tags
   \<and> \<not> request_schema NatsStatCmd (V_Other ''string'')
   \<and> 0 < tokens fixture_world
   \<and> (\<exists>fmt. SendMsgWithReply (fixture_env (fixture_msg [] [9]) Neither (fixture_decode_stat True))
                Background NatsStatCmd (V_Other ''string'')
                (P_StatResult \<lparr>StatResult_Ok = False, StatResult_Size = 0, StatResult_Name = []\<rparr>)
                fixture_world =
              (Some (Inl (errors_Errorf fmt [ArgType ''string''])),
               fixture_world\<lparr>trace := trace fixture_world @ [TokenAcquired, TokenReleased]\<rparr>)
         \<and> prefix ''Struct Supplied to SendMsgWithReply is not a '' fmt)"
proof -
  have a: "NatsStatCmd \<in> set command_tags"
    by (simp add: command_tags_def)
  have b: "\<not> request_schema NatsStatCmd (V_Other ''string'')"
    by (simp add: request_schema_def command_defs)
  have c: "0 < tokens fixture_world"
    by (simp add: fixture_world_def)
  from b have b': "\<not> request_schema NatsStatCmd (V_Other ''string'')
      \<or> \<not> reply_schema NatsStatCmd
           (P_StatResult \<lparr>StatResult_Ok = False, StatResult_Size = 0, StatResult_Name = []\<rparr>)"
    by simp
  from C7_schema_mismatch_without_bus [OF a b', of fixture_world
      "fixture_env (fixture_msg [] [9]) Neither (fixture_decode_stat True)" Background] b c
  have "\<exists>fmt. SendMsgWithReply (fixture_env (fixture_msg [] [9]) Neither (fixture_decode_stat True))
                Background NatsStatCmd (V_Other ''string'')
                (P_StatResult \<lparr>StatResult_Ok = False, StatResult_Size = 0, StatResult_Name = []\<rparr>)
                fixture_world =
              (Some (Inl (errors_Errorf fmt [ArgType ''string''])),
               fixture_world\<lparr>trace := trace fixture_world @ [TokenAcquired, TokenReleased]\<rparr>)
         \<and> prefix ''Struct Supplied to SendMsgWithReply is not a '' fmt"
    by simp
  with a b c show ?thesis by blast
qed


section \<open>Stat and Test\<close>

text \<open>
  C8.  When the round-trip of \<open>Stat\<close> returns a reply message that decodes to a
  \<open>StatResult\<close>: if its \<open>Ok\<close> is true, \<open>Stat\<close> returns the file information with the
  size of the reply and the name of the handle; if its \<open>Ok\<close> is false, \<open>Stat\<close> returns the
  error \<open>File does not exist\<close>, and \<open>Test\<close> returns \<open>(false, nil)\<close>.
\<close>

theorem C8_Stat_reply_ok_and_Test:
  assumes "0 < tokens w"
    and "NewRNSMsg env ''repo.commands.stat'' (emit TokenAcquired (w\<lparr>tokens := tokens w - 1\<rparr>))
           = (Some msg0, w1)"
    and "Encode env ''repo.commands.stat''
           (V_StatOp \<lparr>StatOp_Bucket = Repo (cfg b), StatOp_Filename = Filename (layout b) h\<rparr>)
           = Inr data"
    and "ChunkSendRequestMsgWithContext env Background
           (msg0\<lparr>Header := Header_Set (Header msg0) ''X-RNS-OP'' ''stat'', Data := data,
                  Reply := NewInbox env (trace w1)\<rparr>) w1 = (Some (Inr reply), w2)"
    and "Decode env (Subject reply) (Data reply)
           (P_StatResult \<lparr>StatResult_Ok = False, StatResult_Size = 0, StatResult_Name = []\<rparr>)
           = Inr (P_StatResult result)"
  shows "(StatResult_Ok result \<longrightarrow>
            Stat b env ctx h w =
              (Some (Inr \<lparr>restic_Size = StatResult_Size result, restic_Name = Handle_Name h\<rparr>),
               ReleaseToken w2))
       \<and> (\<not> StatResult_Ok result \<longrightarrow>
            Stat b env ctx h w = (Some (Inl (errors_New ''File does not exist'')), ReleaseToken w2)
            \<and> Test b env ctx h w = (Some (False, None), ReleaseToken w2))"
proof -
  have chk: "check_schema NatsStatCmd
      (V_StatOp \<lparr>StatOp_Bucket = Repo (cfg b), StatOp_Filename = Filename (layout b) h\<rparr>)
      (P_StatResult \<lparr>StatResult_Ok = False, StatResult_Size = 0, StatResult_Name = []\<rparr>) = Inr ''stat''"
    by (simp add: check_schema_def command_defs)
  have body: "SendMsgWithReply_body env Background NatsStatCmd
      (V_StatOp \<lparr>StatOp_Bucket = Repo (cfg b), StatOp_Filename = Filename (layout b) h\<rparr>)
      (P_StatResult \<lparr>StatResult_Ok = False, StatResult_Size = 0, StatResult_Name = []\<rparr>)
      (emit TokenAcquired (w\<lparr>tokens := tokens w - 1\<rparr>)) = (Some (Inr (P_StatResult result)), w2)"
    unfolding SendMsgWithReply_body_def chk
    using assms(2-5) by (simp add: Let_def)
  have send: "SendMsgWithReply env Background NatsStatCmd
      (V_StatOp \<lparr>StatOp_Bucket = Repo (cfg b), StatOp_Filename = Filename (layout b) h\<rparr>)
      (P_StatResult \<lparr>StatResult_Ok = False, StatResult_Size = 0, StatResult_Name = []\<rparr>) w
      = (Some (Inr (P_StatResult result)), ReleaseToken w2)"
    using assms(1) body by (simp add: SendMsgWithReply_def GetToken_def)
  have st: "Stat b env ctx h w =
     (if StatResult_Ok result
      then (Some (Inr \<lparr>restic_Size = StatResult_Size result, restic_Name = Handle_Name h\<rparr>),
            ReleaseToken w2)
      else (Some (Inl (errors_New ''File does not exist'')), ReleaseToken w2))"
    by (simp add: Stat_def send stored_StatResult_def)
  show ?thesis
    by (simp add: st Test_def)
qed

theorem C8_Stat_reply_ok_and_Test_witness:
  "Stat fixture_backend (fixture_env (fixture_msg [] [9]) Neither (fixture_decode_stat True))
     (Cancellable 0) fixture_handle fixture_world =
     (Some (Inr \<lparr>restic_Size = 42, restic_Name = ''config''\<rparr>),
      \<lparr>trace = [TokenAcquired, Requested Background (fixture_request ''stat''), TokenReleased],
       tokens = 5, draws = 2\<rparr>)
   \<and> Stat fixture_backend (fixture_env (fixture_msg [] [9]) Neither (fixture_decode_stat False))
     (Cancellable 0) fixture_handle fixture_world =
     (Some (Inl (errors_New ''File does not exist'')),
      \<lparr>trace = [TokenAcquired, Requested Background (fixture_request ''stat''), TokenReleased],
       tokens = 5, draws = 2\<rparr>)
   \<and> Test fixture_backend (fixture_env (fixture_msg [] [9]) Neither (fixture_decode_stat False))
     (Cancellable 0) fixture_handle fixture_world =
     (Some (False, None),
      \<lparr>trace = [TokenAcquired, Requested Background (fixture_request ''stat''), TokenReleased],
       tokens = 5, draws = 2\<rparr>)"
proof -
  let ?env = "\<lambda>ok. fixture_env (fixture_msg [] [9]) Neither (fixture_decode_stat ok)"
  let ?w1 = "\<lparr>trace = [TokenAcquired], tokens = 4, draws = 2\<rparr>"
  let ?w2 = "\<lparr>trace = [TokenAcquired, Requested Background (fixture_request ''stat'')],
              tokens = 4, draws = 2\<rparr>"
  let ?msg0 = "(NewMsg ''repo.commands.stat'')
                 \<lparr>Header := Header_Set make_Header msgHeaderID ''aaaaaaaaaaaaaaaa''\<rparr>"
  have tok: "0 < tokens fixture_world"
    by (simp add: fixture_world_def)
  have ident: "NewRNSMsg (?env ok) ''repo.commands.stat''
      (emit TokenAcquired (fixture_world\<lparr>tokens := tokens fixture_world - 1\<rparr>)) = (Some ?msg0, ?w1)"
    for ok
    by (simp add: fixture_NewRNSMsg fixture_world_def emit_def)
  have enc: "Encode (?env ok) ''repo.commands.stat''
      (V_StatOp \<lparr>StatOp_Bucket = Repo (cfg fixture_backend),
                 StatOp_Filename = Filename (layout fixture_backend) fixture_handle\<rparr>) = Inr [1, 2, 3]"
    for ok
    by (simp add: fixture_env_simps)
  have rt: "ChunkSendRequestMsgWithContext (?env ok) Background
      (?msg0\<lparr>Header := Header_Set (Header ?msg0) ''X-RNS-OP'' ''stat'', Data := [1, 2, 3],
              Reply := NewInbox (?env ok) (trace ?w1)\<rparr>) ?w1 = (Some (Inr (fixture_msg [] [9])), ?w2)"
    for ok
    using fixture_roundtrip [of Neither "fixture_decode_stat ok" Background "''stat''" ?w1]
    by (simp add: fixture_env_simps fixture_request_def NewMsg_def)
  have dec: "Decode (?env ok) (Subject (fixture_msg [] [9])) (Data (fixture_msg [] [9]))
      (P_StatResult \<lparr>StatResult_Ok = False, StatResult_Size = 0, StatResult_Name = []\<rparr>)
      = Inr (P_StatResult \<lparr>StatResult_Ok = ok, StatResult_Size = 42, StatResult_Name = ''config''\<rparr>)"
    for ok
    by (simp add: fixture_env_simps fixture_decode_stat_def)
  have rel: "ReleaseToken ?w2 =
      \<lparr>trace = [TokenAcquired, Requested Background (fixture_request ''stat''), TokenReleased],
       tokens = 5, draws = 2\<rparr>"
    by (simp add: ReleaseToken_def emit_def)
  from C8_Stat_reply_ok_and_Test [OF tok ident [of True] enc [of True] rt [of True] dec [of True],
      of "Cancellable 0"]
    C8_Stat_reply_ok_and_Test [OF tok ident [of False] enc [of False] rt [of False] dec [of False],
      of "Cancellable 0"]
  show ?thesis
    by (simp add: rel fixture_handle_def)
qed


section \<open>The context of the backend operations\<close>

lemma Stat_requests:
  assumes "Requested c m \<in> set (since w (snd (Stat b env ctx h w)))"
  shows "c = Background"
proof -
  let ?op = "V_StatOp \<lparr>StatOp_Bucket = Repo (cfg b), StatOp_Filename = Filename (layout b) h\<rparr>"
  let ?res = "P_StatResult \<lparr>StatResult_Ok = False, StatResult_Size = 0, StatResult_Name = []\<rparr>"
  obtain r w' where run: "SendMsgWithReply env Background NatsStatCmd ?op ?res w = (r, w')"
    by (cases "SendMsgWithReply env Background NatsStatCmd ?op ?res w")
  then have "snd (Stat b env ctx h w) = w'"
    by (auto simp: Stat_def Let_def split: option.splits sum.splits)
  with assms SendMsgWithReply_requests [OF run] show ?thesis by simp
qed

lemma Remove_requests:
  assumes "Requested c m \<in> set (since w (snd (Remove b env ctx h w)))"
  shows "c = Background"
proof -
  let ?op = "V_RemoveOp \<lparr>RemoveOp_Bucket = Repo (cfg b), RemoveOp_Dir = Dirname (layout b) h,
                RemoveOp_Name = filepath_Base env (Filename (layout b) h)\<rparr>"
  let ?res = "P_RemoveResult \<lparr>RemoveResult_Ok = False\<rparr>"
  obtain r w' where run: "SendMsgWithReply env Background NatsRemoveCmd ?op ?res w = (r, w')"
    by (cases "SendMsgWithReply env Background NatsRemoveCmd ?op ?res w")
  then have "snd (Remove b env ctx h w) = w'"
    by (auto simp: Remove_def Let_def split: option.splits sum.splits)
  with assms SendMsgWithReply_requests [OF run] show ?thesis by simp
qed

lemma Save_requests:
  assumes "Requested c m \<in> set (since w (snd (Save b env ctx h rd w)))"
  shows "c = Background"
proof -
  let ?op = "V_SaveOp \<lparr>SaveOp_Bucket = Repo (cfg b), SaveOp_Dir = Dirname (layout b) h,
                SaveOp_Name = filepath_Base env (Filename (layout b) h),
                SaveOp_Filesize = rd_Length rd,
                SaveOp_PacketSize = int (length (fst (rd_ReadAll rd))),
                SaveOp_Offset = 0, SaveOp_Data = fst (rd_ReadAll rd)\<rparr>"
  let ?res = "P_SaveResult \<lparr>SaveResult_Ok = False\<rparr>"
  obtain r w' where run: "SendMsgWithReply env Background NatsSaveCmd ?op ?res w = (r, w')"
    by (cases "SendMsgWithReply env Background NatsSaveCmd ?op ?res w")
  then have "snd (Save b env ctx h rd w) = w' \<or> snd (Save b env ctx h rd w) = w"
    by (auto simp: Save_def Let_def split: option.splits sum.splits)
  with assms SendMsgWithReply_requests [OF run] show ?thesis by (auto simp: since_same)
qed

lemma Load_requests:
  assumes "Requested c m \<in> set (since w (snd (Load b env ctx h len offset fn w)))"
  shows "c = Background"
proof -
  let ?op = "V_LoadOp \<lparr>LoadOp_Bucket = Repo (cfg b), LoadOp_Dir = Dirname (layout b) h,
                LoadOp_Name = filepath_Base env (Filename (layout b) h),
                LoadOp_Length = len, LoadOp_Offset = offset\<rparr>"
  let ?res = "P_LoadResult \<lparr>LoadResult_Ok = False, LoadResult_Data = []\<rparr>"
  obtain r w' where run: "SendMsgWithReply env Background NatsLoadCmd ?op ?res w = (r, w')"
    by (cases "SendMsgWithReply env Background NatsLoadCmd ?op ?res w")
  then have "snd (Load b env ctx h len offset fn w) = w'"
    by (auto simp: Load_def Let_def split: option.splits sum.splits)
  with assms SendMsgWithReply_requests [OF run] show ?thesis by simp
qed

lemma List_requests:
  assumes "Requested c m \<in> set (since w (snd (List b env ctx t fn w)))"
  shows "c = Background"
proof -
  let ?op = "V_ListOp \<lparr>ListOp_Bucket = Repo (cfg b), ListOp_BaseDir = fst (Basedir (layout b) t),
                ListOp_SubDir = snd (Basedir (layout b) t)\<rparr>"
  let ?res = "P_ListResult \<lparr>ListResult_Ok = False, ListResult_FI = []\<rparr>"
  obtain r w' where run: "SendMsgWithReply env Background NatsListCmd ?op ?res w = (r, w')"
    by (cases "SendMsgWithReply env Background NatsListCmd ?op ?res w")
  then have "snd (List b env ctx t fn w) = w'"
    by (auto simp: List_def Let_def split: option.splits sum.splits)
  with assms SendMsgWithReply_requests [OF run] show ?thesis by simp
qed

lemma Mkdir_requests:
  assumes "Requested c m \<in> set (since w (snd (Mkdir b env ctx dir w)))"
  shows "c = Background"
proof -
  let ?op = "V_MkdirOp \<lparr>MkdirOp_Bucket = Repo (cfg b), MkdirOp_Dir = dir\<rparr>"
  let ?res = "P_MkdirResult \<lparr>MkdirResult_Ok = False\<rparr>"
  obtain r w' where run: "SendMsgWithReply env Background NatsMkdirCmd ?op ?res w = (r, w')"
    by (cases "SendMsgWithReply env Background NatsMkdirCmd ?op ?res w")
  then have "snd (Mkdir b env ctx dir w) = w'"
    by (auto simp: Mkdir_def Let_def split: option.splits sum.splits)
  with assms SendMsgWithReply_requests [OF run] show ?thesis by simp
qed


text \<open>
  C3.  Every request that \<open>Save\<close>, \<open>Load\<close>, \<open>Stat\<close>, \<open>List\<close>, \<open>Remove\<close> and \<open>Mkdir\<close> make
  is made under the background context, whatever context the caller gave: the context of
  a caller that can be cancelled reaches no request.
\<close>

theorem C3_facade_requests_under_background:
  "(\<forall>c m. Requested c m \<in> set (since w (snd (Save b env ctx h rd w))) \<longrightarrow> c = Background)
   \<and> (\<forall>c m. Requested c m \<in> set (since w (snd (Load b env ctx h len offset fn w))) \<longrightarrow> c = Background)
   \<and> (\<forall>c m. Requested c m \<in> set (since w (snd (Stat b env ctx h w))) \<longrightarrow> c = Background)
   \<and> (\<forall>c m. Requested c m \<in> set (since w (snd (List b env ctx t fi w))) \<longrightarrow> c = Background)
   \<and> (\<forall>c m. Requested c m \<in> set (since w (snd (Remove b env ctx h w))) \<longrightarrow> c = Background)
   \<and> (\<forall>c m. Requested c m \<in> set (since w (snd (Mkdir b env ctx dir w))) \<longrightarrow> c = Background)"
  by (intro conjI allI impI, erule Save_requests, erule Load_requests, erule Stat_requests,
      erule List_requests, erule Remove_requests, erule Mkdir_requests)

theorem C3_facade_requests_under_background_witness:
  "Requested Background (fixture_request ''stat'')
     \<in> set (since fixture_world (snd (Stat fixture_backend
          (fixture_env (fixture_msg [] [9]) Neither (fixture_decode_stat True))
          (Cancellable 0) fixture_handle fixture_world)))
   \<and> Requested (Cancellable 0) (fixture_request ''stat'')
     \<notin> set (since fixture_world (snd (Stat fixture_backend
          (fixture_env (fixture_msg [] [9]) Neither (fixture_decode_stat True))
          (Cancellable 0) fixture_handle fixture_world)))"
proof -
  have a: "Requested Background (fixture_request ''stat'')
     \<in> set (since fixture_world (snd (Stat fixture_backend
          (fixture_env (fixture_msg [] [9]) Neither (fixture_decode_stat True))
          (Cancellable 0) fixture_handle fixture_world)))"
    unfolding fixture_Stat by (simp add: since_def fixture_world_def)
  from C3_facade_requests_under_background
    [of fixture_world fixture_backend
       "fixture_env (fixture_msg [] [9]) Neither (fixture_decode_stat True)"
       "Cancellable 0" fixture_handle]
  have "Requested (Cancellable 0) (fixture_request ''stat'')
     \<in> set (since fixture_world (snd (Stat fixture_backend
          (fixture_env (fixture_msg [] [9]) Neither (fixture_decode_stat True))
          (Cancellable 0) fixture_handle fixture_world))) \<longrightarrow> Cancellable 0 = Background"
    by blast
  with a show ?thesis by simp
qed

end
